theory Spec2Isabelle
  imports Complex_Main "HOL-Library.Sublist"
begin

section \<open>Observational memory: the memory lifecycle engine of index.ts\<close>

text \<open>
  The development embeds the first variant of \<^verbatim>\<open>index.ts\<close> (lines 1 to 1741).
  Conventions of the embedding:
  \<^item> a JavaScript string is a \<^typ>\<open>string\<close>; one \<^typ>\<open>char\<close> stands for one UTF-16 code
    unit of the Latin-1 range, so the white space of \<^verbatim>\<open>trim\<close> and of the regular
    expression class \<^verbatim>\<open>\s\<close> is the code units 9 to 13, 32 and 160;
  \<^item> a JavaScript number is a \<^typ>\<open>rat\<close>: exact on the counts, sums and ratios the
    engine computes; NaN and the infinities are not values of the model;
  \<^item> the module-level variables \<^verbatim>\<open>omConfig\<close> and \<^verbatim>\<open>state\<close> are passed explicitly, and a
    function that mutates \<^verbatim>\<open>state\<close> returns the new state;
  \<^item> an \<^verbatim>\<open>async\<close> function is cut at the \<^verbatim>\<open>await\<close> of its external call into the part
    that runs before the call and the part that runs when the call has settled;
  \<^item> notifications of the user interface have no effect on the state and are left out.
\<close>

subsection \<open>Strings\<close>

definition nl :: char where
  "nl = CHR 0x0A"

definition is_space :: "char \<Rightarrow> bool" where
  "is_space c = (c = CHR 0x09 \<or> c = CHR 0x0A \<or> c = CHR 0x0B \<or> c = CHR 0x0C \<or> c = CHR 0x0D
     \<or> c = CHR 0x20 \<or> c = CHR 0xA0)"

text \<open>\<^verbatim>\<open>String.prototype.trim\<close>.\<close>

definition trim :: "string \<Rightarrow> string" where
  "trim s = rev (dropWhile is_space (rev (dropWhile is_space s)))"

text \<open>\<^verbatim>\<open>s.split("\n")\<close>: the empty string splits into one empty piece.\<close>

fun split_lines :: "string \<Rightarrow> string list" where
  "split_lines [] = [[]]"
| "split_lines (c # cs) =
     (if c = nl then [] # split_lines cs
      else (case split_lines cs of [] \<Rightarrow> [[c]] | l # ls \<Rightarrow> (c # l) # ls))"

text \<open>\<^verbatim>\<open>xs.join(sep)\<close>.\<close>

fun join :: "string \<Rightarrow> string list \<Rightarrow> string" where
  "join sep [] = []"
| "join sep [x] = x"
| "join sep (x # y # ys) = x @ sep @ join sep (y # ys)"

text \<open>\<^verbatim>\<open>ToIntegerOrInfinity\<close> on a finite number: truncation towards zero.\<close>

definition js_to_integer :: "rat \<Rightarrow> int" where
  "js_to_integer x = (if 0 \<le> x then \<lfloor>x\<rfloor> else \<lceil>x\<rceil>)"

text \<open>\<^verbatim>\<open>xs.slice(start)\<close>: a negative start counts from the end.\<close>

definition js_slice_from :: "'a list \<Rightarrow> rat \<Rightarrow> 'a list" where
  "js_slice_from xs start =
     (let rel = js_to_integer start; len = int (length xs);
          k = (if rel < 0 then max (len + rel) 0 else min rel len)
      in drop (nat k) xs)"

subsection \<open>Configuration\<close>

datatype OmMemoryInjectionMode = InjectAll | InjectCoreRelevant

record OmConfig =
  recentTurnBudgetTokens :: rat
  maxObservationItems :: rat
  maxObserverTranscriptChars :: rat
  maxReflectorObservationsChars :: rat
  geminiCliModel :: string
  forceObserveAutoCompact :: bool
  memoryInjectionMode :: OmMemoryInjectionMode
  coreMemoryMaxTokens :: rat
  relevantObservationMaxItems :: rat
  relevantObservationMaxTokens :: rat
  enableReflection :: bool
  reflectEveryNObservations :: rat
  reflectWhenObservationTokensOver :: rat
  reflectBeforeCompaction :: bool
  autoObservePendingTokenThreshold :: rat

text \<open>
  \<^verbatim>\<open>DEFAULT_OM_CONFIG\<close>. The source reads the model name from the environment variable
  \<^verbatim>\<open>PI_OM_GEMINI_MODEL\<close> first; the constant takes the name used when it is unset.
\<close>

definition DEFAULT_OM_CONFIG :: OmConfig where
  "DEFAULT_OM_CONFIG = \<lparr>
     recentTurnBudgetTokens = 12000,
     maxObservationItems = 1200,
     maxObserverTranscriptChars = 200000,
     maxReflectorObservationsChars = 240000,
     geminiCliModel = ''gemini-2.5-flash'',
     forceObserveAutoCompact = True,
     memoryInjectionMode = InjectAll,
     coreMemoryMaxTokens = 500,
     relevantObservationMaxItems = 20,
     relevantObservationMaxTokens = 1400,
     enableReflection = True,
     reflectEveryNObservations = 3,
     reflectWhenObservationTokensOver = 3000,
     reflectBeforeCompaction = True,
     autoObservePendingTokenThreshold = 8000 \<rparr>"

text \<open>
  A parsed JSON value, the \<^verbatim>\<open>any\<close> of the loaders. An object is the list of its
  properties; \<^verbatim>\<open>JNum\<close> carries a finite number.
\<close>

datatype json =
    JNull
  | JBool bool
  | JNum rat
  | JStr string
  | JArr "json list"
  | JObj "(string \<times> json) list"

text \<open>
  Reading the property \<^verbatim>\<open>k\<close> with optional chaining, \<^verbatim>\<open>v?.k\<close>: \<^verbatim>\<open>None\<close> is
  \<^verbatim>\<open>undefined\<close>. Only the property names of the engine's records are read, which no
  array, string, number or boolean has.
\<close>

fun get_prop :: "json \<Rightarrow> string \<Rightarrow> json option" where
  "get_prop (JObj kvs) k = map_of kvs k"
| "get_prop _ k = None"

text \<open>\<^verbatim>\<open>coerceNumber(value, fallback, min)\<close>; \<^verbatim>\<open>Number.isFinite\<close> holds of numbers only.\<close>

fun coerceNumber :: "json option \<Rightarrow> rat \<Rightarrow> rat \<Rightarrow> rat" where
  "coerceNumber (Some (JNum v)) fallback mn = max mn v"
| "coerceNumber _ fallback mn = fallback"

fun coerceBool :: "json option \<Rightarrow> bool \<Rightarrow> bool" where
  "coerceBool (Some (JBool b)) fallback = b"
| "coerceBool _ fallback = fallback"

definition normalizeOmConfig :: "json \<Rightarrow> OmConfig" where
  "normalizeOmConfig raw = \<lparr>
     recentTurnBudgetTokens =
       coerceNumber (get_prop raw ''recentTurnBudgetTokens'') (recentTurnBudgetTokens DEFAULT_OM_CONFIG) 1,
     maxObservationItems =
       coerceNumber (get_prop raw ''maxObservationItems'') (maxObservationItems DEFAULT_OM_CONFIG) 1,
     maxObserverTranscriptChars =
       coerceNumber (get_prop raw ''maxObserverTranscriptChars'')
         (maxObserverTranscriptChars DEFAULT_OM_CONFIG) 1,
     maxReflectorObservationsChars =
       coerceNumber (get_prop raw ''maxReflectorObservationsChars'')
         (maxReflectorObservationsChars DEFAULT_OM_CONFIG) 1,
     geminiCliModel =
       (case get_prop raw ''geminiCliModel'' of
          Some (JStr m) \<Rightarrow> (if trim m \<noteq> [] then trim m else geminiCliModel DEFAULT_OM_CONFIG)
        | _ \<Rightarrow> geminiCliModel DEFAULT_OM_CONFIG),
     forceObserveAutoCompact =
       coerceBool (get_prop raw ''forceObserveAutoCompact'') (forceObserveAutoCompact DEFAULT_OM_CONFIG),
     memoryInjectionMode =
       (if get_prop raw ''memoryInjectionMode'' = Some (JStr ''core_relevant'')
        then InjectCoreRelevant else InjectAll),
     coreMemoryMaxTokens =
       coerceNumber (get_prop raw ''coreMemoryMaxTokens'') (coreMemoryMaxTokens DEFAULT_OM_CONFIG) 1,
     relevantObservationMaxItems =
       coerceNumber (get_prop raw ''relevantObservationMaxItems'')
         (relevantObservationMaxItems DEFAULT_OM_CONFIG) 1,
     relevantObservationMaxTokens =
       coerceNumber (get_prop raw ''relevantObservationMaxTokens'')
         (relevantObservationMaxTokens DEFAULT_OM_CONFIG) 1,
     enableReflection =
       coerceBool (get_prop raw ''enableReflection'') (enableReflection DEFAULT_OM_CONFIG),
     reflectEveryNObservations =
       coerceNumber (get_prop raw ''reflectEveryNObservations'')
         (reflectEveryNObservations DEFAULT_OM_CONFIG) 1,
     reflectWhenObservationTokensOver =
       coerceNumber (get_prop raw ''reflectWhenObservationTokensOver'')
         (reflectWhenObservationTokensOver DEFAULT_OM_CONFIG) 1,
     reflectBeforeCompaction =
       coerceBool (get_prop raw ''reflectBeforeCompaction'') (reflectBeforeCompaction DEFAULT_OM_CONFIG),
     autoObservePendingTokenThreshold =
       coerceNumber (get_prop raw ''autoObservePendingTokenThreshold'')
         (autoObservePendingTokenThreshold DEFAULT_OM_CONFIG) 0 \<rparr>"

text \<open>
  \<^verbatim>\<open>loadOmConfig\<close>: the first configuration file that exists decides. \<^verbatim>\<open>None\<close> is no
  file, \<^verbatim>\<open>Some None\<close> a file that does not parse, \<^verbatim>\<open>Some (Some raw)\<close> a parsed one.
\<close>

fun loadOmConfig :: "json option option \<Rightarrow> OmConfig" where
  "loadOmConfig None = DEFAULT_OM_CONFIG"
| "loadOmConfig (Some None) = DEFAULT_OM_CONFIG"
| "loadOmConfig (Some (Some raw)) = normalizeOmConfig raw"

subsection \<open>The memory document\<close>

datatype StorageScope = Thread | Resource

record PendingSegment =
  seg_id :: string
  createdAt :: string
  seg_text :: string
  tokens :: rat

record OmSections =
  sec_observations :: string
  sec_currentTask :: "string option"
  sec_suggestedResponse :: "string option"

text \<open>
  \<^verbatim>\<open>OmState\<close>. The entries of \<^verbatim>\<open>reflections\<close> are kept as JSON values: the loader takes
  them from persisted data unchecked.
\<close>

record OmState =
  version :: nat
  storageScope :: StorageScope
  observations :: string
  observationTokens :: rat
  currentTask :: "string option"
  suggestedResponse :: "string option"
  observationRuns :: rat
  reflectionRuns :: rat
  lastObservedAt :: "string option"
  lastCompressionRatio :: "rat option"
  reflections :: "json list"
  pendingSegments :: "PendingSegment list"
  pendingTokens :: rat
  isBufferingObservation :: bool
  isBufferingReflection :: bool

definition createInitialState :: "StorageScope \<Rightarrow> OmState" where
  "createInitialState scope = \<lparr>
     version = 2,
     storageScope = scope,
     observations = [],
     observationTokens = 0,
     currentTask = None,
     suggestedResponse = None,
     observationRuns = 0,
     reflectionRuns = 0,
     lastObservedAt = None,
     lastCompressionRatio = None,
     reflections = [],
     pendingSegments = [],
     pendingTokens = 0,
     isBufferingObservation = False,
     isBufferingReflection = False \<rparr>"

subsection \<open>Merging observation lines\<close>

text \<open>The trimmed non-empty lines of a text: \<^verbatim>\<open>t.split("\n").map(l => l.trim()).filter(Boolean)\<close>.\<close>

definition obs_lines :: "string \<Rightarrow> string list" where
  "obs_lines t = filter (\<lambda>l. l \<noteq> []) (map trim (split_lines t))"

definition mergeObservationItems :: "OmConfig \<Rightarrow> string \<Rightarrow> string \<Rightarrow> string" where
  "mergeObservationItems cfg existingText incomingText =
     (let existing = obs_lines existingText;
          incoming = obs_lines incomingText;
          merged = existing @ incoming
      in join [nl] (js_slice_from merged (- maxObservationItems cfg)))"

subsection \<open>The pending buffer\<close>

definition recomputePendingCounters :: "OmState \<Rightarrow> OmState" where
  "recomputePendingCounters s = s\<lparr>pendingTokens := sum_list (map tokens (pendingSegments s))\<rparr>"

definition buildTranscriptFromSegments :: "PendingSegment list \<Rightarrow> string" where
  "buildTranscriptFromSegments segments =
     join ([nl, nl] @ ''---'' @ [nl, nl]) (map seg_text segments)"

text \<open>
  \<^verbatim>\<open>pushPendingSegment\<close>. The caller may leave out the id and the creation time; the
  source then draws a random id and reads the clock, which are the arguments \<^verbatim>\<open>rid\<close> and
  \<^verbatim>\<open>now\<close> here. An empty string counts as left out (\<^verbatim>\<open>segment.id || randomId("seg")\<close>).
\<close>

definition pushPendingSegment ::
  "string \<Rightarrow> string \<Rightarrow> string option \<Rightarrow> string option \<Rightarrow> string \<Rightarrow> rat \<Rightarrow> OmState \<Rightarrow> OmState" where
  "pushPendingSegment rid now sid screated stext stokens s =
     recomputePendingCounters (s\<lparr>pendingSegments := pendingSegments s @
       [\<lparr> seg_id = (case sid of Some i \<Rightarrow> (if i = [] then rid else i) | None \<Rightarrow> rid),
          createdAt = (case screated of Some c \<Rightarrow> (if c = [] then now else c) | None \<Rightarrow> now),
          seg_text = stext,
          tokens = max 1 stokens \<rparr>]\<rparr>)"

subsection \<open>The token estimator\<close>

text \<open>The Latin-1 members of the Unicode classes \<^verbatim>\<open>\p{L}\<close> and \<^verbatim>\<open>\p{N}\<close>.\<close>

definition is_unicode_letter :: "char \<Rightarrow> bool" where
  "is_unicode_letter c =
     (let n = (of_char c :: nat)
      in (65 \<le> n \<and> n \<le> 90) \<or> (97 \<le> n \<and> n \<le> 122) \<or> n = 170 \<or> n = 181 \<or> n = 186
         \<or> (192 \<le> n \<and> n \<le> 214) \<or> (216 \<le> n \<and> n \<le> 246) \<or> (248 \<le> n \<and> n \<le> 255))"

definition is_unicode_number :: "char \<Rightarrow> bool" where
  "is_unicode_number c =
     (let n = (of_char c :: nat)
      in (48 \<le> n \<and> n \<le> 57) \<or> n = 178 \<or> n = 179 \<or> n = 185 \<or> (188 \<le> n \<and> n \<le> 190))"

definition is_token_char :: "char \<Rightarrow> bool" where
  "is_token_char c = (is_unicode_letter c \<or> is_unicode_number c \<or> c = CHR ''_'')"

text \<open>
  The number of matches of \<^verbatim>\<open>/[\p{L}\p{N}_]+|[^\s\p{L}\p{N}_]/gu\<close>: a maximal run of
  letters, digits and underscores is one piece, every other character that is not white
  space is a piece of its own. The flag says that the previous character was part of a run.
\<close>

fun count_pieces :: "bool \<Rightarrow> string \<Rightarrow> nat" where
  "count_pieces inrun [] = 0"
| "count_pieces inrun (c # cs) =
     (if is_token_char c then (if inrun then 0 else 1) + count_pieces True cs
      else if is_space c then count_pieces False cs
      else 1 + count_pieces False cs)"

text \<open>\<^verbatim>\<open>toLowerCase\<close> on Latin-1 code units.\<close>

definition lower_char :: "char \<Rightarrow> char" where
  "lower_char c =
     (let n = (of_char c :: nat)
      in if (65 \<le> n \<and> n \<le> 90) \<or> (192 \<le> n \<and> n \<le> 222 \<and> n \<noteq> 215) then char_of (n + 32) else c)"

definition toLowerCase :: "string \<Rightarrow> string" where
  "toLowerCase s = map lower_char s"

text \<open>\<^verbatim>\<open>s.includes(p)\<close>.\<close>

fun str_includes :: "string \<Rightarrow> string \<Rightarrow> bool" where
  "str_includes [] p = (p = [])"
| "str_includes (c # cs) p = (prefix p (c # cs) \<or> str_includes cs p)"

definition roughTextTokenizer :: "string \<Rightarrow> string option \<Rightarrow> rat" where
  "roughTextTokenizer text modelHint =
     (if text = [] then 0
      else
        let lexical = count_pieces False text;
            hint = toLowerCase (case modelHint of None \<Rightarrow> [] | Some h \<Rightarrow> h);
            c0 = (4 :: rat);
            c1 = (if str_includes hint ''claude'' \<or> str_includes hint ''anthropic'' then 36 / 10 else c0);
            c2 = (if str_includes hint ''gemini'' \<or> str_includes hint ''google'' then 38 / 10 else c1);
            charsPerToken = (if str_includes hint ''qwen'' \<or> str_includes hint ''deepseek'' then 37 / 10 else c2);
            charEstimate = of_nat (length text) / charsPerToken;
            lexicalEstimate = of_nat lexical * (72 / 100)
        in max 1 (of_int \<lceil>max charEstimate lexicalEstimate\<rceil>))"

subsection \<open>The section parser\<close>

text \<open>
  Matching under the flag \<^verbatim>\<open>i\<close>: the patterns of the parser are ASCII, and an ASCII
  letter of a pattern matches exactly its two cases.
\<close>

definition upper_ascii :: "char \<Rightarrow> char" where
  "upper_ascii c =
     (let n = (of_char c :: nat) in if 97 \<le> n \<and> n \<le> 122 then char_of (n - 32) else c)"

fun starts_with_ci :: "string \<Rightarrow> string \<Rightarrow> bool" where
  "starts_with_ci [] t = True"
| "starts_with_ci (p # ps) [] = False"
| "starts_with_ci (p # ps) (c # cs) = (upper_ascii p = upper_ascii c \<and> starts_with_ci ps cs)"

text \<open>
  The first occurrence of a pattern, matched without regard to case: the text before it
  and the text after it.
\<close>

fun find_ci :: "string \<Rightarrow> string \<Rightarrow> (string \<times> string) option" where
  "find_ci p [] = (if p = [] then Some ([], []) else None)"
| "find_ci p (c # cs) =
     (if starts_with_ci p (c # cs) then Some ([], drop (length p) (c # cs))
      else (case find_ci p cs of None \<Rightarrow> None | Some (b, a) \<Rightarrow> Some (c # b, a)))"

definition backtick :: char where
  "backtick = CHR 0x60"

text \<open>The class \<^verbatim>\<open>\w\<close>, which also decides the word boundary \<^verbatim>\<open>\b\<close>.\<close>

definition is_word_char :: "char \<Rightarrow> bool" where
  "is_word_char c =
     (let n = (of_char c :: nat)
      in (48 \<le> n \<and> n \<le> 57) \<or> (65 \<le> n \<and> n \<le> 90) \<or> n = 95 \<or> (97 \<le> n \<and> n \<le> 122))"

text \<open>
  \<^verbatim>\<open>stripSingleCodeFence\<close>: the trimmed text matches
  \<^verbatim>\<open>/^```[a-zA-Z0-9_-]*\n([\s\S]*?)\n```$/\<close> when it opens with a fence line and its last
  four characters are a line break and a fence; the group is what lies between.
\<close>

definition stripSingleCodeFence :: "string \<Rightarrow> string" where
  "stripSingleCodeFence text =
     (let trimmed = trim text;
          fence = replicate 3 backtick
      in if take 3 trimmed = fence
         then (case dropWhile (\<lambda>c. is_word_char c \<or> c = CHR ''-'') (drop 3 trimmed) of
                 [] \<Rightarrow> trim text
               | c # body \<Rightarrow>
                   if c = nl \<and> 4 \<le> length body \<and> drop (length body - 4) body = nl # fence
                   then trim (take (length body - 4) body)
                   else trim text)
         else trim text)"

text \<open>\<^verbatim>\<open>extractXmlTag\<close>: the text between the first opening tag and the next closing tag.\<close>

definition extractXmlTag :: "string \<Rightarrow> string \<Rightarrow> string" where
  "extractXmlTag text tag =
     (case find_ci (''<'' @ tag @ ''>'') text of
        None \<Rightarrow> []
      | Some (before, rest) \<Rightarrow>
          (case find_ci (''</'' @ tag @ ''>'') rest of
             None \<Rightarrow> []
           | Some (body, after) \<Rightarrow> trim body))"

text \<open>\<^verbatim>\<open>#{1,6}\<close> followed by something that is no hash sign: one to six hash signs.\<close>

definition skip_hashes :: "string \<Rightarrow> string option" where
  "skip_hashes t =
     (let k = length (takeWhile (\<lambda>c. c = CHR ''#'') t)
      in if 1 \<le> k \<and> k \<le> 6 then Some (drop k t) else None)"

definition word_end :: "string \<Rightarrow> bool" where
  "word_end t = (case t of [] \<Rightarrow> True | c # cs \<Rightarrow> \<not> is_word_char c)"

text \<open>\<^verbatim>\<open>(?:observations|current\s*task|suggested\s*response)\b\<close> at the head of a text.\<close>

definition section_name_at :: "string \<Rightarrow> bool" where
  "section_name_at t =
     ((starts_with_ci ''observations'' t \<and> word_end (drop 12 t))
      \<or> (starts_with_ci ''current'' t
          \<and> (let r = dropWhile is_space (drop 7 t)
             in starts_with_ci ''task'' r \<and> word_end (drop 4 r)))
      \<or> (starts_with_ci ''suggested'' t
          \<and> (let r = dropWhile is_space (drop 9 t)
             in starts_with_ci ''response'' r \<and> word_end (drop 8 r))))"

text \<open>
  The lookahead \<^verbatim>\<open>\n\s*#{1,6}\s*(?:...)\b\<close> of the heading expression, on the text after
  the line break.
\<close>

definition next_heading :: "string \<Rightarrow> bool" where
  "next_heading t =
     (case skip_hashes (dropWhile is_space t) of
        None \<Rightarrow> False
      | Some r \<Rightarrow> section_name_at (dropWhile is_space r))"

text \<open>
  \<^verbatim>\<open>\s*#{1,6}\s*heading\s*\n\<close> at the head of a text: the rest of the text after the
  last line break of the white space that follows the heading.
\<close>

definition heading_body :: "string \<Rightarrow> string \<Rightarrow> string option" where
  "heading_body heading t =
     (case skip_hashes (dropWhile is_space t) of
        None \<Rightarrow> None
      | Some r \<Rightarrow>
          (let r1 = dropWhile is_space r
           in if starts_with_ci heading r1
              then (let r2 = drop (length heading) r1;
                        ws = takeWhile is_space r2
                    in if nl \<in> set ws
                       then Some (rev (takeWhile (\<lambda>c. c \<noteq> nl) (rev ws)) @ dropWhile is_space r2)
                       else None)
              else None))"

text \<open>
  The leftmost match of the heading expression: a match starts at the beginning of the
  text (\<^verbatim>\<open>^\<close>, while the flag holds) or at a line break.
\<close>

fun find_heading :: "string \<Rightarrow> bool \<Rightarrow> string \<Rightarrow> string option" where
  "find_heading heading at_start [] = None"
| "find_heading heading at_start (c # cs) =
     (case (if at_start then heading_body heading (c # cs) else None) of
        Some r \<Rightarrow> Some r
      | None \<Rightarrow>
          (case (if c = nl then heading_body heading cs else None) of
             Some r \<Rightarrow> Some r
           | None \<Rightarrow> find_heading heading False cs))"

text \<open>The lazy group: up to the first line break that opens a section heading, or to the end.\<close>

fun section_capture :: "string \<Rightarrow> string" where
  "section_capture [] = []"
| "section_capture (c # cs) = (if c = nl \<and> next_heading cs then [] else c # section_capture cs)"

definition extractHeadingSection :: "string \<Rightarrow> string \<Rightarrow> string" where
  "extractHeadingSection text heading =
     (case find_heading heading True text of
        None \<Rightarrow> []
      | Some rest \<Rightarrow> trim (section_capture rest))"

definition parseOmSections :: "string \<Rightarrow> OmSections" where
  "parseOmSections raw =
     (let text = stripSingleCodeFence raw;
          x_obs = extractXmlTag text ''observations'';
          x_task = extractXmlTag text ''current-task'';
          x_resp = extractXmlTag text ''suggested-response'';
          obs = (if x_obs = [] then extractHeadingSection text ''observations'' else x_obs);
          task = (if x_task = [] then extractHeadingSection text ''current task'' else x_task);
          resp = (if x_resp = [] then extractHeadingSection text ''suggested response'' else x_resp)
      in \<lparr> sec_observations = trim obs,
           sec_currentTask = (if trim task = [] then None else Some (trim task)),
           sec_suggestedResponse = (if trim resp = [] then None else Some (trim resp)) \<rparr>)"

subsection \<open>State recovery\<close>

text \<open>
  One element of the persisted segment list. A segment without an id gets a fresh random
  id, one without a creation time the current time; both are arguments here.
\<close>

definition coerceSegment :: "string \<Rightarrow> string \<Rightarrow> json \<Rightarrow> PendingSegment" where
  "coerceSegment rid now sj = \<lparr>
     seg_id = (case get_prop sj ''id'' of Some (JStr i) \<Rightarrow> i | _ \<Rightarrow> rid),
     createdAt = (case get_prop sj ''createdAt'' of Some (JStr c) \<Rightarrow> c | _ \<Rightarrow> now),
     seg_text = (case get_prop sj ''text'' of Some (JStr t) \<Rightarrow> t | _ \<Rightarrow> []),
     tokens = (case get_prop sj ''tokens'' of Some (JNum n) \<Rightarrow> n | _ \<Rightarrow> 0) \<rparr>"

definition coerceFields :: "(nat \<Rightarrow> string) \<Rightarrow> string \<Rightarrow> json \<Rightarrow> OmState" where
  "coerceFields rids now raw = \<lparr>
     version = 2,
     storageScope = (if get_prop raw ''storageScope'' = Some (JStr ''resource'') then Resource else Thread),
     observations = (case get_prop raw ''observations'' of Some (JStr t) \<Rightarrow> t | _ \<Rightarrow> []),
     observationTokens = (case get_prop raw ''observationTokens'' of Some (JNum n) \<Rightarrow> n | _ \<Rightarrow> 0),
     currentTask = (case get_prop raw ''currentTask'' of Some (JStr t) \<Rightarrow> Some t | _ \<Rightarrow> None),
     suggestedResponse =
       (case get_prop raw ''suggestedResponse'' of Some (JStr t) \<Rightarrow> Some t | _ \<Rightarrow> None),
     observationRuns = (case get_prop raw ''observationRuns'' of Some (JNum n) \<Rightarrow> n | _ \<Rightarrow> 0),
     reflectionRuns = (case get_prop raw ''reflectionRuns'' of Some (JNum n) \<Rightarrow> n | _ \<Rightarrow> 0),
     lastObservedAt = (case get_prop raw ''lastObservedAt'' of Some (JStr t) \<Rightarrow> Some t | _ \<Rightarrow> None),
     lastCompressionRatio =
       (case get_prop raw ''lastCompressionRatio'' of Some (JNum n) \<Rightarrow> Some n | _ \<Rightarrow> None),
     reflections = (case get_prop raw ''reflections'' of Some (JArr rs) \<Rightarrow> take 15 rs | _ \<Rightarrow> []),
     pendingSegments =
       (case get_prop raw ''pendingSegments'' of
          Some (JArr segs) \<Rightarrow> map (\<lambda>(i, sj). coerceSegment (rids i) now sj) (zip [0 ..< length segs] segs)
        | _ \<Rightarrow> []),
     pendingTokens = 0,
     isBufferingObservation = False,
     isBufferingReflection = False \<rparr>"

text \<open>
  \<^verbatim>\<open>coerceState\<close>: a value that is falsy or no object gives the initial state; arrays are
  objects.
\<close>

fun coerceState :: "StorageScope \<Rightarrow> (nat \<Rightarrow> string) \<Rightarrow> string \<Rightarrow> json \<Rightarrow> OmState" where
  "coerceState scope rids now (JObj kvs) = coerceFields rids now (JObj kvs)"
| "coerceState scope rids now (JArr xs) = coerceFields rids now (JArr xs)"
| "coerceState scope rids now _ = createInitialState scope"

text \<open>
  \<^verbatim>\<open>loadState\<close>. \<^verbatim>\<open>sqlite_row\<close> is the parsed row of the durable store (\<^verbatim>\<open>None\<close> when
  the store is disabled, has no row for the scope, or the row does not parse);
  \<^verbatim>\<open>entries\<close> is the data of the state entries on the session branch, of which the last
  one counts.
\<close>

definition loadState ::
  "StorageScope \<Rightarrow> (nat \<Rightarrow> string) \<Rightarrow> string \<Rightarrow> json option \<Rightarrow> json list \<Rightarrow> OmState" where
  "loadState scope rids now sqlite_row entries =
     (let loaded =
            (case sqlite_row of
               Some raw \<Rightarrow> Some (coerceState scope rids now raw)
             | None \<Rightarrow> (if entries = [] then None else Some (coerceState scope rids now (last entries))))
      in recomputePendingCounters
           (case loaded of Some st \<Rightarrow> st | None \<Rightarrow> createInitialState scope))"

text \<open>
  \<^verbatim>\<open>persistState\<close>, as far as it changes the state: the counters are recomputed before
  the state is written out.
\<close>

definition persistState :: "StorageScope \<Rightarrow> OmState \<Rightarrow> OmState" where
  "persistState scope s =
     (let s1 = recomputePendingCounters (s\<lparr>storageScope := scope\<rparr>)
      in s1\<lparr>observationTokens := roughTextTokenizer (observations s1) None\<rparr>)"

subsection \<open>The external summarization call\<close>

text \<open>
  A prompt is kept by its variable parts: the fixed instructions around them are the
  constructor. \<^verbatim>\<open>buildObserverPrompt\<close> and \<^verbatim>\<open>buildReflectorPrompt\<close> cut their input at the
  configured number of characters and mark the cut.
\<close>

datatype Prompt = ObserverPrompt string string | ReflectorPrompt string bool

definition truncateChars :: "string \<Rightarrow> rat \<Rightarrow> string" where
  "truncateChars t mx =
     (if of_nat (length t) > mx
      then take (nat (js_to_integer mx)) t @ [nl, nl] @ ''[...truncated...]''
      else t)"

definition buildObserverPrompt :: "OmConfig \<Rightarrow> string \<Rightarrow> string \<Rightarrow> Prompt" where
  "buildObserverPrompt cfg existingObservations newTranscript =
     ObserverPrompt existingObservations (truncateChars newTranscript (maxObserverTranscriptChars cfg))"

definition buildReflectorPrompt :: "OmConfig \<Rightarrow> string \<Rightarrow> bool \<Rightarrow> Prompt" where
  "buildReflectorPrompt cfg obs aggressive =
     ReflectorPrompt (truncateChars obs (maxReflectorObservationsChars cfg)) aggressive"

text \<open>
  The two channels of the external capability. A call either throws or returns text:
  the command-line channel returns the standard output of the command, the hosted
  channel the text of the completion. \<^verbatim>\<open>resolveCompressionModel\<close> says whether a model
  with an API key is found.
\<close>

datatype 'a outcome = Threw | Returned 'a

record Backend =
  isGeminiCliAvailable :: bool
  callGeminiCli :: "Prompt \<Rightarrow> string outcome"
  resolveCompressionModel :: bool
  complete :: "Prompt \<Rightarrow> string outcome"

text \<open>
  The text the channels yield for a prompt, shared by \<^verbatim>\<open>runObserverCall\<close> and
  \<^verbatim>\<open>runReflectorCall\<close>: the command-line channel first, the hosted channel when the
  first gave nothing. \<^verbatim>\<open>Returned None\<close> is the early \<^verbatim>\<open>return undefined\<close> of the Observer
  when no channel is usable, which the flag \<^verbatim>\<open>early\<close> enables.
\<close>

definition channel_text :: "bool \<Rightarrow> Backend \<Rightarrow> Prompt \<Rightarrow> string option outcome" where
  "channel_text early b p =
     (let cli = (if isGeminiCliAvailable b then callGeminiCli b p else Threw);
          text0 = (case cli of Threw \<Rightarrow> [] | Returned out \<Rightarrow> trim out);
          usedGeminiCli = (cli \<noteq> Threw)
      in if text0 = []
         then (if resolveCompressionModel b
               then (case complete b p of Threw \<Rightarrow> Threw | Returned r \<Rightarrow> Returned (Some (trim r)))
               else if early \<and> \<not> usedGeminiCli then Returned None
               else Returned (Some text0))
         else Returned (Some text0))"

text \<open>\<^verbatim>\<open>Number(x.toFixed(2))\<close>: two decimals, a tie rounded away from zero.\<close>

definition toFixed2 :: "rat \<Rightarrow> rat" where
  "toFixed2 x =
     (if x < 0 then - (of_int \<lfloor>- x * 100 + 1 / 2\<rfloor> / 100) else of_int \<lfloor>x * 100 + 1 / 2\<rfloor> / 100)"

text \<open>
  \<^verbatim>\<open>runObserverCall\<close>, applied to the state at the time the call settles. An empty parsed
  observations section is \<^verbatim>\<open>undefined\<close>; a result records the compression ratio and the
  time.
\<close>

definition runObserverCall ::
  "OmConfig \<Rightarrow> Backend \<Rightarrow> string \<Rightarrow> string \<Rightarrow> string \<Rightarrow> rat \<Rightarrow> OmState
     \<Rightarrow> (OmState \<times> OmSections option) outcome" where
  "runObserverCall cfg b now existingObservations transcript inputTokens s =
     (case channel_text True b (buildObserverPrompt cfg existingObservations transcript) of
        Threw \<Rightarrow> Threw
      | Returned None \<Rightarrow> Returned (s, None)
      | Returned (Some text) \<Rightarrow>
          (let parsed = parseOmSections text
           in if trim (sec_observations parsed) = [] then Returned (s, None)
              else
                (let outTokens = roughTextTokenizer (sec_observations parsed) None
                 in Returned
                      (s\<lparr>lastCompressionRatio := Some (toFixed2 (inputTokens / max 1 outTokens)),
                         lastObservedAt := Some now\<rparr>,
                       Some parsed))))"

definition runReflectorCall ::
  "OmConfig \<Rightarrow> Backend \<Rightarrow> string \<Rightarrow> bool \<Rightarrow> OmSections option outcome" where
  "runReflectorCall cfg b obs aggressive =
     (case channel_text False b (buildReflectorPrompt cfg obs aggressive) of
        Threw \<Rightarrow> Threw
      | Returned None \<Rightarrow> Returned None
      | Returned (Some text) \<Rightarrow>
          (let parsed = parseOmSections text
           in if trim (sec_observations parsed) = [] then Returned None else Returned (Some parsed)))"

subsection \<open>The Reflector run\<close>

text \<open>
  What a run holds across its external call: the Reflector the observations and their
  token count read before the call, the Observer the observations of its prompt, the
  transcript built from the pending segments and their token total.
\<close>

record ReflectSnapshot =
  beforeObservations :: string
  beforeTokens :: rat

record ObserveSnapshot =
  promptObservations :: string
  transcript :: string
  inputTokens :: rat

text \<open>How a run ends: it returns a boolean, or the exception of the external call escapes.\<close>

datatype run_result = Completed bool | Escaped

text \<open>
  \<^verbatim>\<open>reflectNow\<close> up to its external call: the three guards, then the flag. \<^verbatim>\<open>None\<close> is the
  early \<^verbatim>\<open>return false\<close>.
\<close>

definition reflectNow_start :: "OmConfig \<Rightarrow> OmState \<Rightarrow> OmState \<times> ReflectSnapshot option" where
  "reflectNow_start cfg s =
     (if \<not> enableReflection cfg then (s, None)
      else if trim (observations s) = [] then (s, None)
      else if isBufferingReflection s then (s, None)
      else (s\<lparr>isBufferingReflection := True\<rparr>,
            Some \<lparr>beforeObservations = observations s, beforeTokens = observationTokens s\<rparr>))"

text \<open>\<^verbatim>\<open>text.replace(/\s+/g, " ")\<close>; the flag says that the previous character was white space.\<close>

fun collapse_spaces :: "bool \<Rightarrow> string \<Rightarrow> string" where
  "collapse_spaces prev [] = []"
| "collapse_spaces prev (c # cs) =
     (if is_space c then (if prev then collapse_spaces True cs else CHR '' '' # collapse_spaces True cs)
      else c # collapse_spaces False cs)"

text \<open>
  \<^verbatim>\<open>trimPreview\<close>. The ellipsis U+2026 that marks a cut lies outside Latin-1; it is
  written as the one code unit 0x85.
\<close>

definition trimPreview :: "string \<Rightarrow> nat \<Rightarrow> string" where
  "trimPreview text maxChars =
     (let normalized = trim (collapse_spaces False text)
      in if length normalized \<le> maxChars then normalized
         else take maxChars normalized @ [CHR 0x85])"

text \<open>
  \<^verbatim>\<open>reflectNow\<close> from the moment its external call has settled, on the state of that
  moment: the \<^verbatim>\<open>try\<close> block and the \<^verbatim>\<open>finally\<close> that clears the flag.
\<close>

definition reflectNow_settle ::
  "OmConfig \<Rightarrow> StorageScope \<Rightarrow> string \<Rightarrow> Backend \<Rightarrow> bool \<Rightarrow> string \<Rightarrow> ReflectSnapshot \<Rightarrow> OmState
     \<Rightarrow> OmState \<times> run_result" where
  "reflectNow_settle cfg scope now b aggressive reason snap s =
     (case runReflectorCall cfg b (beforeObservations snap) aggressive of
        Threw \<Rightarrow> (s\<lparr>isBufferingReflection := False\<rparr>, Escaped)
      | Returned None \<Rightarrow> (s\<lparr>isBufferingReflection := False\<rparr>, Completed False)
      | Returned (Some parsed) \<Rightarrow>
          (if trim (sec_observations parsed) = []
           then (s\<lparr>isBufferingReflection := False\<rparr>, Completed False)
           else
             (let obs = mergeObservationItems cfg [] (sec_observations parsed);
                  toks = roughTextTokenizer obs None;
                  s1 = s\<lparr>observations := obs, observationTokens := toks\<rparr>;
                  s2 = (case sec_currentTask parsed of
                          None \<Rightarrow> s1 | Some t \<Rightarrow> s1\<lparr>currentTask := Some t\<rparr>);
                  s3 = (case sec_suggestedResponse parsed of
                          None \<Rightarrow> s2 | Some t \<Rightarrow> s2\<lparr>suggestedResponse := Some t\<rparr>);
                  entry = JObj
                    [(''at'', JStr now),
                     (''beforeTokens'', JNum (beforeTokens snap)),
                     (''afterTokens'', JNum toks),
                     (''preview'', JStr (trimPreview
                        (reason @ (if aggressive then '' (aggressive)'' else []) @ '': '' @ obs) 320))];
                  s4 = s3\<lparr>reflectionRuns := reflectionRuns s3 + 1,
                          reflections := take 15 (entry # reflections s3)\<rparr>;
                  s5 = persistState scope s4
              in (s5\<lparr>isBufferingReflection := False\<rparr>, Completed True))))"

text \<open>A Reflector run that nothing else interleaves with.\<close>

definition reflectNow ::
  "OmConfig \<Rightarrow> StorageScope \<Rightarrow> string \<Rightarrow> Backend \<Rightarrow> bool \<Rightarrow> string \<Rightarrow> OmState
     \<Rightarrow> OmState \<times> run_result" where
  "reflectNow cfg scope now b aggressive reason s =
     (case reflectNow_start cfg s of
        (s1, None) \<Rightarrow> (s1, Completed False)
      | (s1, Some snap) \<Rightarrow> reflectNow_settle cfg scope now b aggressive reason snap s1)"

subsection \<open>The Observer run\<close>

text \<open>The remainder \<^verbatim>\<open>a % b\<close>, with the sign of the dividend.\<close>

definition js_rem :: "rat \<Rightarrow> rat \<Rightarrow> rat" where
  "js_rem a b = a - b * of_int (js_to_integer (a / b))"

definition shouldRunPeriodicReflection :: "OmConfig \<Rightarrow> OmState \<Rightarrow> bool" where
  "shouldRunPeriodicReflection cfg s =
     (if \<not> enableReflection cfg then False
      else if trim (observations s) = [] then False
      else
        (let n = reflectEveryNObservations cfg;
             everyN = max 1 (of_int \<lfloor>if n = 0 then 1 else n\<rfloor>);
             t = reflectWhenObservationTokensOver cfg;
             tokenThreshold = max 1 (of_int \<lfloor>if t = 0 then 1 else t\<rfloor>);
             byObservationRuns = (observationRuns s > 0 \<and> js_rem (observationRuns s) everyN = 0);
             byTokenThreshold = (observationTokens s \<ge> tokenThreshold)
         in byObservationRuns \<or> byTokenThreshold))"

text \<open>\<^verbatim>\<open>observeNow\<close> up to its external call: the two guards, the flag, the snapshot.\<close>

definition observeNow_start :: "OmState \<Rightarrow> OmState \<times> ObserveSnapshot option" where
  "observeNow_start s =
     (if pendingSegments s = [] then (s, None)
      else if isBufferingObservation s then (s, None)
      else (s\<lparr>isBufferingObservation := True\<rparr>,
            Some \<lparr>promptObservations = observations s,
                  transcript = buildTranscriptFromSegments (pendingSegments s),
                  inputTokens = pendingTokens s\<rparr>))"

text \<open>
  Where an Observer run stands once its own external call has settled: it has ended, or
  it has started the periodic Reflector run and waits for that run's external call,
  with its own flag still set.
\<close>

datatype observe_step = ObserveEnded run_result | ObserveReflects ReflectSnapshot

definition observeNow_settle ::
  "OmConfig \<Rightarrow> Backend \<Rightarrow> string \<Rightarrow> bool \<Rightarrow> ObserveSnapshot \<Rightarrow> OmState \<Rightarrow> OmState \<times> observe_step" where
  "observeNow_settle cfg b now triggerAutoReflect snap s =
     (case runObserverCall cfg b now (promptObservations snap) (transcript snap) (inputTokens snap) s of
        Threw \<Rightarrow> (s\<lparr>isBufferingObservation := False\<rparr>, ObserveEnded Escaped)
      | Returned (s0, None) \<Rightarrow> (s0\<lparr>isBufferingObservation := False\<rparr>, ObserveEnded (Completed False))
      | Returned (s0, Some parsed) \<Rightarrow>
          (let obs = mergeObservationItems cfg (observations s0) (sec_observations parsed);
               s1 = s0\<lparr>observations := obs, observationTokens := roughTextTokenizer obs None\<rparr>;
               s2 = (case sec_currentTask parsed of
                       None \<Rightarrow> s1 | Some t \<Rightarrow> s1\<lparr>currentTask := Some t\<rparr>);
               s3 = (case sec_suggestedResponse parsed of
                       None \<Rightarrow> s2 | Some t \<Rightarrow> s2\<lparr>suggestedResponse := Some t\<rparr>);
               s4 = s3\<lparr>observationRuns := observationRuns s3 + 1\<rparr>;
               s5 = recomputePendingCounters (s4\<lparr>pendingSegments := []\<rparr>)
           in if triggerAutoReflect \<and> shouldRunPeriodicReflection cfg s5
              then (case reflectNow_start cfg s5 of
                      (s6, None) \<Rightarrow> (s6\<lparr>isBufferingObservation := False\<rparr>, ObserveEnded (Completed True))
                    | (s6, Some rsnap) \<Rightarrow> (s6, ObserveReflects rsnap))
              else (s5\<lparr>isBufferingObservation := False\<rparr>, ObserveEnded (Completed True))))"

text \<open>
  The end of an Observer run that started a periodic Reflector run: the Reflector run
  settles, its boolean is dropped, and the \<^verbatim>\<open>finally\<close> of the Observer clears the flag.
\<close>

definition observeNow_reflect_settle ::
  "OmConfig \<Rightarrow> StorageScope \<Rightarrow> string \<Rightarrow> Backend \<Rightarrow> ReflectSnapshot \<Rightarrow> OmState \<Rightarrow> OmState \<times> run_result" where
  "observeNow_reflect_settle cfg scope now b rsnap s =
     (case reflectNow_settle cfg scope now b False ''auto-periodic'' rsnap s of
        (s1, Escaped) \<Rightarrow> (s1\<lparr>isBufferingObservation := False\<rparr>, Escaped)
      | (s1, Completed r) \<Rightarrow> (s1\<lparr>isBufferingObservation := False\<rparr>, Completed True))"

text \<open>An Observer run that nothing else interleaves with.\<close>

definition observeNow ::
  "OmConfig \<Rightarrow> StorageScope \<Rightarrow> Backend \<Rightarrow> string \<Rightarrow> bool \<Rightarrow> OmState \<Rightarrow> OmState \<times> run_result" where
  "observeNow cfg scope b now triggerAutoReflect s =
     (case observeNow_start s of
        (s1, None) \<Rightarrow> (s1, Completed False)
      | (s1, Some snap) \<Rightarrow>
          (case observeNow_settle cfg b now triggerAutoReflect snap s1 of
             (s2, ObserveEnded r) \<Rightarrow> (s2, r)
           | (s2, ObserveReflects rsnap) \<Rightarrow> observeNow_reflect_settle cfg scope now b rsnap s2))"

subsection \<open>The event handlers that append\<close>

text \<open>
  The \<^verbatim>\<open>turn_end\<close> handler up to the external call of the Observer run it may start.
  The serialized turn and its token estimate come from the host. \<^verbatim>\<open>None\<close>: the handler
  has ended (no run, or a run that returned at once) and the state is persisted;
  \<^verbatim>\<open>Some snap\<close>: an Observer run is started and waits for its external call.
\<close>

definition turn_end_start ::
  "OmConfig \<Rightarrow> StorageScope \<Rightarrow> string \<Rightarrow> string \<Rightarrow> string \<Rightarrow> string \<Rightarrow> rat \<Rightarrow> OmState
     \<Rightarrow> OmState \<times> ObserveSnapshot option" where
  "turn_end_start cfg scope rid now turnIndex serializedTurn turnTokenEstimate s =
     (let s1 = pushPendingSegment rid now None None
                 (''[Turn '' @ turnIndex @ '']'' @ [nl] @ serializedTurn) turnTokenEstimate s;
          threshold = autoObservePendingTokenThreshold cfg
      in if threshold > 0 \<and> pendingTokens s1 \<ge> threshold \<and> length (pendingSegments s1) > 0
         then (case observeNow_start s1 of
                 (s2, None) \<Rightarrow> (persistState scope s2, None)
               | (s2, Some snap) \<Rightarrow> (s2, Some snap))
         else (persistState scope s1, None))"

text \<open>
  The \<^verbatim>\<open>session_before_compact\<close> handler up to the same point: the messages about to be
  dropped, already rendered as one transcript, are appended and observed at once.
  Without such messages nothing is appended.
\<close>

definition before_compact_start ::
  "string \<Rightarrow> string \<Rightarrow> string option \<Rightarrow> OmState \<Rightarrow> OmState \<times> ObserveSnapshot option" where
  "before_compact_start rid now messagesToCompact s =
     (case messagesToCompact of
        None \<Rightarrow> (s, None)
      | Some t \<Rightarrow>
          observeNow_start
            (pushPendingSegment rid now (Some rid) None
               (''[Compaction Event]'' @ [nl] @ t) (roughTextTokenizer t None) s))"

text \<open>The command \<^verbatim>\<open>om-clear\<close>.\<close>

definition om_clear :: "StorageScope \<Rightarrow> OmState \<Rightarrow> OmState" where
  "om_clear scope s = persistState scope (createInitialState scope)"

subsection \<open>Interleaved runs\<close>





text \<open>
  Three predicates on the states of the engine: the cached token total agrees with the
  segment list; every pending segment carries at least one token; the flags count the
  runs in flight.
\<close>

definition in_sync :: "OmState \<Rightarrow> bool" where
  "in_sync s = (pendingTokens s = sum_list (map tokens (pendingSegments s)))"



subsection \<open>Core and relevant selection\<close>

text \<open>
  A message of the recent window, as far as \<^verbatim>\<open>messageTextForRelevance\<close> reads it: no
  message, a message whose content is a string, one whose content is a list of parts
  (of which the text parts count; a text part without text counts as empty), or a
  message with any other content.
\<close>

datatype ContentPart = TextPart string | OtherPart

datatype Message = NoMessage | StringContent string | PartsContent "ContentPart list" | OtherContent

fun part_text :: "ContentPart \<Rightarrow> string" where
  "part_text (TextPart t) = t"
| "part_text OtherPart = []"

fun messageTextForRelevance :: "Message \<Rightarrow> string" where
  "messageTextForRelevance NoMessage = []"
| "messageTextForRelevance (StringContent t) = t"
| "messageTextForRelevance (PartsContent ps) = trim (join [nl] (map part_text ps))"
| "messageTextForRelevance OtherContent = []"

definition STOPWORDS :: "string list" where
  "STOPWORDS =
     [''the'', ''a'', ''an'', ''to'', ''for'', ''of'', ''and'', ''or'', ''in'', ''on'', ''with'', ''by'',
      ''is'', ''are'', ''was'', ''were'', ''be'', ''been'', ''it'', ''that'', ''this'', ''as'', ''from'', ''at'',
      ''user'', ''assistant'', ''agent'', ''tool'', ''task'']"

text \<open>
  \<^verbatim>\<open>s.split(/[^\p{L}\p{N}_-]+/u)\<close>: the pieces between the maximal runs of separator
  characters, empty pieces at the ends included. The flag says that the previous
  character was a separator.
\<close>

definition is_keyword_char :: "char \<Rightarrow> bool" where
  "is_keyword_char c = (is_unicode_letter c \<or> is_unicode_number c \<or> c = CHR ''_'' \<or> c = CHR ''-'')"

fun split_words :: "bool \<Rightarrow> string \<Rightarrow> string list" where
  "split_words prev [] = [[]]"
| "split_words prev (c # cs) =
     (if is_keyword_char c
      then (case split_words False cs of [] \<Rightarrow> [[c]] | w # ws \<Rightarrow> (c # w) # ws)
      else if prev then split_words True cs
      else [] # split_words True cs)"

text \<open>\<^verbatim>\<open>keywordSet\<close>: the set keeps the first occurrence of every word, in order.\<close>

definition keywordSet :: "string \<Rightarrow> string list" where
  "keywordSet text =
     rev (remdups (rev (filter (\<lambda>w. length w \<ge> 3 \<and> w \<notin> set STOPWORDS)
                          (map trim (split_words False (toLowerCase text))))))"

text \<open>
  \<^verbatim>\<open>trimLinesToTokenBudget\<close>: the loop carries the number of lines kept and the tokens
  used.
\<close>

fun trim_loop :: "rat \<Rightarrow> nat \<Rightarrow> rat \<Rightarrow> string list \<Rightarrow> string list" where
  "trim_loop maxTokens n used [] = []"
| "trim_loop maxTokens n used (line # lines) =
     (let t = roughTextTokenizer line None
      in if n > 0 \<and> used + t > maxTokens then []
         else line # trim_loop maxTokens (Suc n) (used + t) lines)"

definition trimLinesToTokenBudget :: "string list \<Rightarrow> rat \<Rightarrow> string list" where
  "trimLinesToTokenBudget lines maxTokens = trim_loop maxTokens 0 0 lines"

text \<open>
  A ranked line: the line, its index and its score. The comparator of the sort puts the
  higher score first and, among equal scores, the higher index; no two entries tie, so
  the sorted order is the one an insertion sort produces.
\<close>

type_synonym ranked = "string \<times> nat \<times> nat"

definition ranked_before :: "ranked \<Rightarrow> ranked \<Rightarrow> bool" where
  "ranked_before a b =
     (case (a, b) of ((la, ia, sa), (lb, ib, sb)) \<Rightarrow> sb < sa \<or> (sb = sa \<and> ib < ia))"

fun insert_ranked :: "ranked \<Rightarrow> ranked list \<Rightarrow> ranked list" where
  "insert_ranked x [] = [x]"
| "insert_ranked x (y # ys) = (if ranked_before y x then y # insert_ranked x ys else x # y # ys)"

definition sort_ranked :: "ranked list \<Rightarrow> ranked list" where
  "sort_ranked xs = foldr insert_ranked xs []"

definition score_line :: "string list \<Rightarrow> string \<Rightarrow> nat" where
  "score_line keys line = length (filter (\<lambda>key. str_includes (toLowerCase line) key) keys)"

text \<open>
  The loop that collects the relevant lines: a line already selected is skipped, and the
  loop stops once the configured number of lines is collected.
\<close>

fun collect_relevant :: "rat \<Rightarrow> string list \<Rightarrow> nat \<Rightarrow> ranked list \<Rightarrow> string list" where
  "collect_relevant maxItems seen n [] = []"
| "collect_relevant maxItems seen n ((line, i, sc) # items) =
     (if line \<in> set seen then collect_relevant maxItems seen n items
      else line # (if of_nat (Suc n) \<ge> maxItems then []
                   else collect_relevant maxItems (line # seen) (Suc n) items))"

definition queryText :: "Message list \<Rightarrow> string" where
  "queryText recentMessages =
     join [nl] (filter (\<lambda>t. t \<noteq> []) (map messageTextForRelevance (js_slice_from recentMessages (- 6))))"

definition coreObservations :: "OmConfig \<Rightarrow> OmState \<Rightarrow> string list" where
  "coreObservations cfg s =
     rev (trimLinesToTokenBudget (rev (obs_lines (observations s))) (coreMemoryMaxTokens cfg))"

definition rankedObservations :: "OmState \<Rightarrow> Message list \<Rightarrow> ranked list" where
  "rankedObservations s recentMessages =
     (let allLines = obs_lines (observations s);
          keys = keywordSet (queryText recentMessages);
          ranked = map (\<lambda>(line, i). (line, i, if keys \<noteq> [] then score_line keys line else 0))
                     (zip allLines [0 ..< length allLines])
      in if keys \<noteq> [] then sort_ranked (filter (\<lambda>(line, i, sc). sc > 0) ranked)
         else sort_ranked ranked)"

definition relevantRaw :: "OmConfig \<Rightarrow> OmState \<Rightarrow> Message list \<Rightarrow> string list" where
  "relevantRaw cfg s recentMessages =
     collect_relevant (relevantObservationMaxItems cfg) (coreObservations cfg s) 0
       (rankedObservations s recentMessages)"

text \<open>\<^verbatim>\<open>buildCoreAndRelevantObservations\<close>: the core lines and the relevant lines.\<close>

definition buildCoreAndRelevantObservations ::
  "OmConfig \<Rightarrow> OmState \<Rightarrow> Message list \<Rightarrow> string list \<times> string list" where
  "buildCoreAndRelevantObservations cfg s recentMessages =
     (if obs_lines (observations s) = [] then ([], [])
      else (coreObservations cfg s,
            trimLinesToTokenBudget (relevantRaw cfg s recentMessages) (relevantObservationMaxTokens cfg)))"

subsection \<open>Dates of the host\<close>

text \<open>
  A \<^verbatim>\<open>Date\<close> is its time value, the milliseconds since the epoch. The local time zone
  is taken to have a constant offset from UTC, which cancels in every difference of two
  local dates; it is set to 0.
\<close>

type_synonym Date = int

definition is_digit :: "char \<Rightarrow> bool" where
  "is_digit c = (let n = (of_char c :: nat) in 48 \<le> n \<and> n \<le> 57)"

definition is_upper :: "char \<Rightarrow> bool" where
  "is_upper c = (let n = (of_char c :: nat) in 65 \<le> n \<and> n \<le> 90)"

definition is_lower :: "char \<Rightarrow> bool" where
  "is_lower c = (let n = (of_char c :: nat) in 97 \<le> n \<and> n \<le> 122)"

text \<open>The value of a string of decimal digits, and the decimal digits of a number.\<close>

definition digits_value :: "string \<Rightarrow> nat" where
  "digits_value ds = foldl (\<lambda>acc c. 10 * acc + (of_char c - 48)) 0 ds"

fun nat_to_string :: "nat \<Rightarrow> string" where
  "nat_to_string n =
     (if n < 10 then [char_of (48 + n)]
      else nat_to_string (n div 10) @ [char_of (48 + n mod 10)])"

declare nat_to_string.simps [simp del]

text \<open>The days from 1 January 1970 to the first day of a month of the civil calendar.\<close>

definition days_from_civil :: "int \<Rightarrow> int \<Rightarrow> int" where
  "days_from_civil y m =
     (let y1 = (if m \<le> 2 then y - 1 else y);
          era = y1 div 400;
          yoe = y1 - era * 400;
          mp = (m + 9) mod 12;
          doy = (153 * mp + 2) div 5;
          doe = yoe * 365 + yoe div 4 - yoe div 100 + doy
      in era * 146097 + doe - 719468)"

text \<open>
  The host's parser, \<^verbatim>\<open>new Date(text)\<close>, on a text made of a word and two numbers, as
  in \<^verbatim>\<open>Feb 12, 2026\<close>; the engine passes it nothing else. It follows the legacy parser
  of the V8 engine. A word is a month name when its first three letters are those of an
  English month, in any case; any other word is skipped. With a month name, the first
  number is the day if it lies in 1 to 31, and the second the year; otherwise the first
  is the year and the second the day. Without one, the numbers are month and day of the
  year 2001, or year and month when the first is no day. A year below 50 is in the
  2000s, one below 100 in the 1900s. The month must lie in 1 to 12 and the day in 1 to
  31; a day beyond the end of its month runs into the next. \<^verbatim>\<open>None\<close> is the invalid date.
\<close>

definition month_number :: "string \<Rightarrow> int option" where
  "month_number word =
     map_of [(''jan'', 1), (''feb'', 2), (''mar'', 3), (''apr'', 4), (''may'', 5), (''jun'', 6),
             (''jul'', 7), (''aug'', 8), (''sep'', 9), (''oct'', 10), (''nov'', 11), (''dec'', 12)]
       (toLowerCase (take 3 word))"

definition full_year :: "int \<Rightarrow> int" where
  "full_year y = (if 0 \<le> y \<and> y \<le> 49 then y + 2000 else if 50 \<le> y \<and> y \<le> 99 then y + 1900 else y)"

definition host_parse_date :: "string \<Rightarrow> nat \<Rightarrow> nat \<Rightarrow> Date option" where
  "host_parse_date word n1 n2 =
     (let is_day = (\<lambda>n :: nat. 1 \<le> n \<and> n \<le> 31);
          (year, month, day) =
            (case month_number word of
               Some m \<Rightarrow> (if is_day n1 then (int n2, m, int n1) else (int n1, m, int n2))
             | None \<Rightarrow> (if is_day n1 then (1, int n1, int n2) else (int n1, int n2, 1)))
      in if 1 \<le> month \<and> month \<le> 12 \<and> 1 \<le> day \<and> day \<le> 31
         then Some ((days_from_civil (full_year year) month + day - 1) * 86400000)
         else None)"

subsection \<open>The temporal annotator\<close>

definition formatRelativeTime :: "Date \<Rightarrow> Date \<Rightarrow> string" where
  "formatRelativeTime date currentDate =
     (let diffMs = currentDate - date;
          diffDays = diffMs div (1000 * 60 * 60 * 24)
      in if diffDays < 0
         then (let futureDays = nat \<bar>diffDays\<bar>
               in if futureDays = 0 then ''today''
                  else if futureDays = 1 then ''tomorrow''
                  else if futureDays < 7 then ''in '' @ nat_to_string futureDays @ '' days''
                  else if futureDays < 14 then ''in 1 week''
                  else if futureDays < 30 then ''in '' @ nat_to_string (futureDays div 7) @ '' weeks''
                  else ''in '' @ nat_to_string (futureDays div 30) @ '' month''
                         @ (if futureDays div 30 > 1 then ''s'' else []))
         else (let d = nat diffDays
               in if d = 0 then ''today''
                  else if d = 1 then ''yesterday''
                  else if d < 7 then nat_to_string d @ '' days ago''
                  else if d < 14 then ''1 week ago''
                  else if d < 30 then nat_to_string (d div 7) @ '' weeks ago''
                  else if d < 60 then ''1 month ago''
                  else if d < 365 then nat_to_string (d div 30) @ '' months ago''
                  else nat_to_string (d div 365) @ '' year''
                         @ (if d div 365 > 1 then ''s'' else []) @ '' ago''))"

definition formatGapBetweenDates :: "Date \<Rightarrow> Date \<Rightarrow> string option" where
  "formatGapBetweenDates prevDate currDate =
     (let diffMs = currDate - prevDate;
          diffDays = diffMs div (1000 * 60 * 60 * 24)
      in if diffDays \<le> 1 then None
         else (let d = nat diffDays
               in if d < 7 then Some (''['' @ nat_to_string d @ '' days later]'')
                  else if d < 14 then Some ''[1 week later]''
                  else if d < 30 then Some (''['' @ nat_to_string (d div 7) @ '' weeks later]'')
                  else if d < 60 then Some ''[1 month later]''
                  else Some (''['' @ nat_to_string (d div 30) @ '' months later]'')))"

text \<open>
  \<^verbatim>\<open>[A-Z][a-z]+ \d{1,2}, \d{4}\<close> at the head of a text: the month word, the digits of
  the day and the digits of the year.
\<close>

definition match_date :: "string \<Rightarrow> (string \<times> string \<times> string) option" where
  "match_date t =
     (case t of
        [] \<Rightarrow> None
      | c # r \<Rightarrow>
          (let lows = takeWhile is_lower r;
               r1 = dropWhile is_lower r;
               ds = takeWhile is_digit (drop 1 r1);
               r2 = dropWhile is_digit (drop 1 r1);
               ys = take 4 (drop 2 r2)
           in if is_upper c \<and> lows \<noteq> [] \<and> take 1 r1 = '' ''
                 \<and> 1 \<le> length ds \<and> length ds \<le> 2 \<and> take 2 r2 = '', ''
                 \<and> length ys = 4 \<and> list_all is_digit ys
              then Some (c # lows, ds, ys)
              else None))"

definition is_line_terminator :: "char \<Rightarrow> bool" where
  "is_line_terminator c = (c = nl \<or> c = CHR 0x0D)"

text \<open>
  The header expression \<^verbatim>\<open>/^(Date:\s*)([A-Z][a-z]+ \d{1,2}, \d{4})$/gm\<close> at a line start:
  the first group and the three parts of the second, which must end at a line end.
\<close>

definition match_header :: "string \<Rightarrow> (string \<times> string \<times> string \<times> string) option" where
  "match_header t =
     (if prefix ''Date:'' t
      then (let r = drop 5 t;
                ws = takeWhile is_space r;
                r1 = dropWhile is_space r
            in case match_date r1 of
                 None \<Rightarrow> None
               | Some (w, ds, ys) \<Rightarrow>
                   (case drop (length w + 1 + length ds + 2 + 4) r1 of
                      [] \<Rightarrow> Some (''Date:'' @ ws, w, ds, ys)
                    | c # rest \<Rightarrow> if is_line_terminator c then Some (''Date:'' @ ws, w, ds, ys) else None))
      else None)"

text \<open>
  One entry of the array \<^verbatim>\<open>dates\<close>: the index of the match, its date, the matched text,
  the first group and the second.
\<close>

record DateHeader =
  hdr_index :: nat
  hdr_date :: Date
  hdr_match :: string
  hdr_prefix :: string
  hdr_dateStr :: string

text \<open>
  The \<^verbatim>\<open>exec\<close> loop: the matches from left to right, each search resuming at the end of
  the match before; a match whose date is invalid is left out. The loop carries the
  position, the number of characters still inside the last match, and whether the
  position is a line start.
\<close>

fun scan_headers :: "nat \<Rightarrow> nat \<Rightarrow> bool \<Rightarrow> string \<Rightarrow> DateHeader list" where
  "scan_headers pos skip line_start [] = []"
| "scan_headers pos skip line_start (c # cs) =
     (if skip > 0 then scan_headers (Suc pos) (skip - 1) (is_line_terminator c) cs
      else
        (case (if line_start then match_header (c # cs) else None) of
           None \<Rightarrow> scan_headers (Suc pos) 0 (is_line_terminator c) cs
         | Some (pre, w, ds, ys) \<Rightarrow>
             (let dateStr = w @ '' '' @ ds @ '', '' @ ys;
                  rest = scan_headers (Suc pos) (length pre + length dateStr - 1) (is_line_terminator c) cs
              in case host_parse_date w (digits_value ds) (digits_value ys) of
                   None \<Rightarrow> rest
                 | Some d \<Rightarrow>
                     \<lparr>hdr_index = pos, hdr_date = d, hdr_match = pre @ dateStr,
                      hdr_prefix = pre, hdr_dateStr = dateStr\<rparr> # rest)))"

text \<open>
  \<^verbatim>\<open>parseDateFromContent\<close>. Each of its three expressions is searched from the left; the
  functions below match one of them at the head of a text.

  \<^verbatim>\<open>/([A-Z][a-z]+)\s+(\d{1,2}),?\s+(\d{4})/\<close>: a capitalised word, white space, one or
  two digits that end the run of digits, an optional comma, white space, four digits.
\<close>

definition simple_date_at :: "string \<Rightarrow> (string \<times> string \<times> string) option" where
  "simple_date_at t =
     (case t of
        [] \<Rightarrow> None
      | c # r \<Rightarrow>
          (let lows = takeWhile is_lower r;
               r1 = dropWhile is_lower r;
               r2 = dropWhile is_space r1;
               ds = takeWhile is_digit r2;
               r3 = dropWhile is_digit r2;
               r4 = (if take 1 r3 = '','' then drop 1 r3 else r3);
               r5 = dropWhile is_space r4;
               ys = take 4 r5
           in if is_upper c \<and> lows \<noteq> [] \<and> takeWhile is_space r1 \<noteq> []
                 \<and> 1 \<le> length ds \<and> length ds \<le> 2 \<and> takeWhile is_space r4 \<noteq> []
                 \<and> length ys = 4 \<and> list_all is_digit ys
              then Some (c # lows, ds, ys)
              else None))"

text \<open>
  \<^verbatim>\<open>/([A-Z][a-z]+)\s+(\d{1,2})-\d{1,2},?\s+(\d{4})/\<close>: as before, with a range of days
  of which the first counts.
\<close>

definition range_date_at :: "string \<Rightarrow> (string \<times> string \<times> string) option" where
  "range_date_at t =
     (case t of
        [] \<Rightarrow> None
      | c # r \<Rightarrow>
          (let lows = takeWhile is_lower r;
               r1 = dropWhile is_lower r;
               r2 = dropWhile is_space r1;
               ds = takeWhile is_digit r2;
               r3 = dropWhile is_digit r2;
               ds2 = takeWhile is_digit (drop 1 r3);
               r4 = dropWhile is_digit (drop 1 r3);
               r5 = (if take 1 r4 = '','' then drop 1 r4 else r4);
               r6 = dropWhile is_space r5;
               ys = take 4 r6
           in if is_upper c \<and> lows \<noteq> [] \<and> takeWhile is_space r1 \<noteq> []
                 \<and> 1 \<le> length ds \<and> length ds \<le> 2 \<and> take 1 r3 = ''-''
                 \<and> 1 \<le> length ds2 \<and> length ds2 \<le> 2 \<and> takeWhile is_space r5 \<noteq> []
                 \<and> length ys = 4 \<and> list_all is_digit ys
              then Some (c # lows, ds, ys)
              else None))"

text \<open>
  \<^verbatim>\<open>/(late|early|mid)[- ]?(?:to[- ]?(?:late|early|mid)[- ]?)?([A-Z][a-z]+)\s+(\d{4})/i\<close>.
  Under the flag \<^verbatim>\<open>i\<close> the word is two or more ASCII letters. Every optional hyphen or
  blank is taken when present, since a letter must follow it; the optional group is
  tried first and given up when the rest does not match after it.
\<close>

definition modifier_at :: "string \<Rightarrow> (string \<times> string) option" where
  "modifier_at t =
     (if starts_with_ci ''late'' t then Some (take 4 t, drop 4 t)
      else if starts_with_ci ''early'' t then Some (take 5 t, drop 5 t)
      else if starts_with_ci ''mid'' t then Some (take 3 t, drop 3 t)
      else None)"

definition skip_sep :: "string \<Rightarrow> string" where
  "skip_sep t = (if take 1 t = ''-'' \<or> take 1 t = '' '' then drop 1 t else t)"

definition word_year_at :: "string \<Rightarrow> (string \<times> string) option" where
  "word_year_at t =
     (let is_letter = (\<lambda>c. is_upper c \<or> is_lower c);
          w = takeWhile is_letter t;
          r1 = dropWhile is_letter t;
          r2 = dropWhile is_space r1;
          ys = take 4 r2
      in if 2 \<le> length w \<and> takeWhile is_space r1 \<noteq> [] \<and> length ys = 4 \<and> list_all is_digit ys
         then Some (w, ys)
         else None)"

definition vague_date_at :: "string \<Rightarrow> (string \<times> string \<times> string) option" where
  "vague_date_at t =
     (case modifier_at t of
        None \<Rightarrow> None
      | Some (modifier, r) \<Rightarrow>
          (let t1 = skip_sep r;
               grouped =
                 (if starts_with_ci ''to'' t1
                  then (case modifier_at (skip_sep (drop 2 t1)) of
                          None \<Rightarrow> None
                        | Some (m2, r2) \<Rightarrow> word_year_at (skip_sep r2))
                  else None)
           in case (case grouped of Some wy \<Rightarrow> Some wy | None \<Rightarrow> word_year_at t1) of
                None \<Rightarrow> None
              | Some (w, ys) \<Rightarrow> Some (modifier, w, ys)))"

text \<open>The leftmost match of an expression that no flag anchors.\<close>

fun first_match :: "(string \<Rightarrow> 'a option) \<Rightarrow> string \<Rightarrow> 'a option" where
  "first_match f [] = f []"
| "first_match f (c # cs) = (case f (c # cs) of Some r \<Rightarrow> Some r | None \<Rightarrow> first_match f cs)"

definition parseDateFromContent :: "string \<Rightarrow> Date option" where
  "parseDateFromContent dateContent =
     (let simple = (case first_match simple_date_at dateContent of
                      None \<Rightarrow> None
                    | Some (w, ds, ys) \<Rightarrow> host_parse_date w (digits_value ds) (digits_value ys));
          ranged = (case first_match range_date_at dateContent of
                      None \<Rightarrow> None
                    | Some (w, ds, ys) \<Rightarrow> host_parse_date w (digits_value ds) (digits_value ys));
          vague = (case first_match vague_date_at dateContent of
                     None \<Rightarrow> None
                   | Some (modifier, w, ys) \<Rightarrow>
                       host_parse_date w
                         (if toLowerCase modifier = ''late'' then 23
                          else if toLowerCase modifier = ''early'' then 7 else 15)
                         (digits_value ys))
      in case simple of
           Some d \<Rightarrow> Some d
         | None \<Rightarrow> (case ranged of Some d \<Rightarrow> Some d | None \<Rightarrow> vague))"

text \<open>
  \<^verbatim>\<open>isFutureIntentObservation\<close>. A phrase must start at a word boundary. After
  \<^verbatim>\<open>will\<close> and white space any word follows (\<^verbatim>\<open>(?:be\s+)?(?:\w+ing|\w+)\b\<close> asks no
  more); the other seven phrases are a stem, for some an optional \<^verbatim>\<open>s\<close>, white space
  and the word \<^verbatim>\<open>to\<close>.
\<close>

definition will_at :: "string \<Rightarrow> bool" where
  "will_at t =
     (starts_with_ci ''will'' t
      \<and> takeWhile is_space (drop 4 t) \<noteq> []
      \<and> (case dropWhile is_space (drop 4 t) of [] \<Rightarrow> False | c # cs \<Rightarrow> is_word_char c))"

definition phrase_to_at :: "string \<Rightarrow> bool \<Rightarrow> string \<Rightarrow> bool" where
  "phrase_to_at stem optional_s t =
     (starts_with_ci stem t
      \<and> (let r = drop (length stem) t;
              r1 = (if optional_s \<and> r \<noteq> [] \<and> starts_with_ci ''s'' r then drop 1 r else r);
              r2 = dropWhile is_space r1
          in takeWhile is_space r1 \<noteq> [] \<and> starts_with_ci ''to'' r2 \<and> word_end (drop 2 r2)))"

definition future_intent_at :: "string \<Rightarrow> bool" where
  "future_intent_at t =
     (will_at t \<or> phrase_to_at ''plan'' True t \<or> phrase_to_at ''planning'' False t
      \<or> phrase_to_at ''going'' False t \<or> phrase_to_at ''intend'' True t
      \<or> phrase_to_at ''want'' True t \<or> phrase_to_at ''need'' True t
      \<or> phrase_to_at ''about'' False t)"

fun future_intent_scan :: "bool \<Rightarrow> string \<Rightarrow> bool" where
  "future_intent_scan prev_word [] = False"
| "future_intent_scan prev_word (c # cs) =
     ((\<not> prev_word \<and> future_intent_at (c # cs)) \<or> future_intent_scan (is_word_char c) cs)"

definition isFutureIntentObservation :: "string \<Rightarrow> bool" where
  "isFutureIntentObservation line = future_intent_scan False line"

text \<open>
  The inline expression \<^verbatim>\<open>/\((estimated|meaning)\s+([^)]+\d{4})\)/gi\<close> at the head of a
  text: the keyword as written, the second group, and the length of the match. The
  second group ends at the first closing parenthesis, in four digits, and has a
  character before them; when the parenthesis holds nothing but the four digits, the
  last character of the white space is that character.
\<close>

definition inline_date_at :: "string \<Rightarrow> (string \<times> string \<times> nat) option" where
  "inline_date_at t =
     (case t of
        [] \<Rightarrow> None
      | c # r \<Rightarrow>
          (let k = (if starts_with_ci ''estimated'' r then 9
                    else if starts_with_ci ''meaning'' r then 7 else 0);
               r1 = drop k r;
               ws = takeWhile is_space r1;
               r2 = dropWhile is_space r1;
               body = takeWhile (\<lambda>x. x \<noteq> CHR 0x29) r2;
               r3 = dropWhile (\<lambda>x. x \<noteq> CHR 0x29) r2;
               content = (if 5 \<le> length body then body else take 1 (rev ws) @ body)
           in if c = CHR 0x28 \<and> 0 < k \<and> ws \<noteq> [] \<and> r3 \<noteq> [] \<and> 4 \<le> length body
                 \<and> list_all is_digit (drop (length body - 4) body)
                 \<and> (5 \<le> length body \<or> 2 \<le> length ws)
              then Some (take k r, content, 1 + k + length ws + length body + 1)
              else None))"

text \<open>\<^verbatim>\<open>text.indexOf(p)\<close> for a \<^verbatim>\<open>p\<close> that occurs in the text.\<close>

fun index_of :: "string \<Rightarrow> string \<Rightarrow> nat" where
  "index_of p [] = 0"
| "index_of p (c # cs) = (if prefix p (c # cs) then 0 else Suc (index_of p cs))"

text \<open>
  The replacement function of \<^verbatim>\<open>expandInlineEstimatedDates\<close>. The line before the date
  is the line of the first occurrence of the matched text in the observations.
\<close>

definition inline_replacement :: "string \<Rightarrow> Date \<Rightarrow> string \<Rightarrow> string \<Rightarrow> string \<Rightarrow> string" where
  "inline_replacement obs currentDate matched keyword dateContent =
     (case parseDateFromContent dateContent of
        None \<Rightarrow> matched
      | Some targetDate \<Rightarrow>
          (let relative = formatRelativeTime targetDate currentDate;
               matchIndex = index_of matched obs;
               lineBeforeDate = rev (takeWhile (\<lambda>c. c \<noteq> nl) (rev (take matchIndex obs)));
               isPastDate = (targetDate < currentDate);
               isFuture = isFutureIntentObservation lineBeforeDate
           in if isPastDate \<and> isFuture
              then ''('' @ keyword @ '' '' @ dateContent @ '' - '' @ relative @ '', likely already happened)''
              else ''('' @ keyword @ '' '' @ dateContent @ '' - '' @ relative @ '')''))"

text \<open>
  The global replace, from left to right; the loop carries the number of characters
  still inside the last match.
\<close>

fun expand_inline_loop :: "string \<Rightarrow> Date \<Rightarrow> nat \<Rightarrow> string \<Rightarrow> string" where
  "expand_inline_loop obs currentDate skip [] = []"
| "expand_inline_loop obs currentDate skip (c # cs) =
     (if skip > 0 then expand_inline_loop obs currentDate (skip - 1) cs
      else
        (case inline_date_at (c # cs) of
           None \<Rightarrow> c # expand_inline_loop obs currentDate 0 cs
         | Some (keyword, dateContent, len) \<Rightarrow>
             inline_replacement obs currentDate (take len (c # cs)) keyword dateContent
               @ expand_inline_loop obs currentDate (len - 1) cs))"

definition expandInlineEstimatedDates :: "string \<Rightarrow> Date \<Rightarrow> string" where
  "expandInlineEstimatedDates obs currentDate = expand_inline_loop obs currentDate 0 obs"

text \<open>The replacement of the date header number \<^verbatim>\<open>i\<close>, with the gap marker before it.\<close>

definition header_replacement :: "Date \<Rightarrow> DateHeader list \<Rightarrow> nat \<Rightarrow> string" where
  "header_replacement currentDate dates i =
     (let d = dates ! i;
          relative = formatRelativeTime (hdr_date d) currentDate;
          replacement = hdr_prefix d @ hdr_dateStr d @ '' ('' @ relative @ '')''
      in if i > 0
         then (case formatGapBetweenDates (hdr_date (dates ! (i - 1))) (hdr_date d) of
                 None \<Rightarrow> replacement
               | Some gap \<Rightarrow> [nl] @ gap @ [nl] @ replacement)
         else replacement)"

text \<open>The loop from the last header down to the first; the counter is \<^verbatim>\<open>i + 1\<close>.\<close>

fun replace_headers :: "Date \<Rightarrow> DateHeader list \<Rightarrow> nat \<Rightarrow> string \<Rightarrow> string" where
  "replace_headers currentDate dates 0 result = result"
| "replace_headers currentDate dates (Suc i) result =
     (let d = dates ! i
      in replace_headers currentDate dates i
           (take (hdr_index d) result @ header_replacement currentDate dates i
              @ drop (hdr_index d + length (hdr_match d)) result))"

definition addRelativeTimeToObservations :: "string \<Rightarrow> Date \<Rightarrow> string" where
  "addRelativeTimeToObservations obs currentDate =
     (let withInlineDates = expandInlineEstimatedDates obs currentDate;
          dates = scan_headers 0 0 True withInlineDates
      in if dates = [] then withInlineDates
         else replace_headers currentDate dates (length dates) withInlineDates)"

text \<open>The order of the ranking: \<^verbatim>\<open>a\<close> stands no later than \<^verbatim>\<open>b\<close>.\<close>

definition ranked_le :: "ranked \<Rightarrow> ranked \<Rightarrow> bool" where
  "ranked_le a b = (\<not> ranked_before b a)"

section \<open>Properties\<close>

subsection \<open>Lines, trimming and joining\<close>

lemma split_lines_not_Nil: "split_lines s \<noteq> []"
  by (induction s) (auto split: list.splits)

lemma split_lines_no_nl: "nl \<notin> set s \<Longrightarrow> split_lines s = [s]"
  by (induction s) auto

lemma split_lines_append_nl:
  "nl \<notin> set l \<Longrightarrow> split_lines (l @ nl # r) = l # split_lines r"
  by (induction l) auto

lemma split_lines_join:
  "ls \<noteq> [] \<Longrightarrow> \<forall>l\<in>set ls. nl \<notin> set l \<Longrightarrow> split_lines (join [nl] ls) = ls"
proof (induction "[nl]" ls rule: join.induct)
  case 1 then show ?case by simp
next
  case (2 x) then show ?case by (simp add: split_lines_no_nl)
next
  case (3 x y ys)
  then show ?case by (simp add: split_lines_append_nl)
qed

lemma split_lines_pieces: "l \<in> set (split_lines s) \<Longrightarrow> nl \<notin> set l"
proof (induction s arbitrary: l)
  case Nil then show ?case by simp
next
  case (Cons c cs)
  then show ?case
    by (cases "split_lines cs") (auto simp: split_lines_not_Nil split: if_splits)
qed

lemma dropWhile_fix: "xs = [] \<or> \<not> P (hd xs) \<Longrightarrow> dropWhile P xs = xs"
  by (cases xs) auto

lemma set_trim: "set (trim s) \<subseteq> set s"
  unfolding trim_def by (metis set_dropWhileD set_rev subsetI)

lemma trim_trim: "trim (trim s) = trim s"
proof -
  define t where "t = dropWhile is_space s"
  define u where "u = dropWhile is_space (rev t)"
  have u: "dropWhile is_space u = u" unfolding u_def by simp
  have "dropWhile is_space (rev u) = rev u"
  proof (cases "u = []")
    case True then show ?thesis by simp
  next
    case False
    have "rev t = takeWhile is_space (rev t) @ u" unfolding u_def by simp
    then have "t = rev u @ rev (takeWhile is_space (rev t))"
      by (metis rev_append rev_rev_ident)
    with False have "hd (rev u) = hd t" by (metis hd_append2 rev_is_Nil_conv)
    moreover have "t \<noteq> []" using False u_def by auto
    then have "\<not> is_space (hd t)" unfolding t_def by (metis hd_dropWhile)
    ultimately show ?thesis using False by (intro dropWhile_fix) simp
  qed
  then show ?thesis unfolding trim_def t_def[symmetric] u_def[symmetric] by (simp add: u)
qed

lemma obs_lines_props:
  "l \<in> set (obs_lines t) \<Longrightarrow> l \<noteq> [] \<and> trim l = l \<and> nl \<notin> set l"
  unfolding obs_lines_def using split_lines_pieces set_trim trim_trim by fastforce

lemma obs_lines_join:
  assumes "\<forall>l\<in>set ls. l \<noteq> [] \<and> trim l = l \<and> nl \<notin> set l"
  shows "obs_lines (join [nl] ls) = ls"
proof (cases "ls = []")
  case True then show ?thesis by (simp add: obs_lines_def trim_def)
next
  case False
  with assms have "split_lines (join [nl] ls) = ls" by (simp add: split_lines_join)
  moreover have "map trim ls = ls" using assms by (simp add: map_idI)
  moreover have "filter (\<lambda>l. l \<noteq> []) ls = ls" using assms by simp
  ultimately show ?thesis by (simp add: obs_lines_def)
qed

lemma obs_lines_Nil: "obs_lines [] = []"
  by (simp add: obs_lines_def trim_def)

lemma js_slice_from_neg:
  assumes "1 \<le> cap"
  shows "js_slice_from xs (- cap) = drop (length xs - nat \<lfloor>cap\<rfloor>) xs"
proof -
  have f: "1 \<le> \<lfloor>cap\<rfloor>" using assms by linarith
  have "js_to_integer (- cap) = - \<lfloor>cap\<rfloor>"
    using assms by (simp add: js_to_integer_def ceiling_minus)
  then show ?thesis using f
    by (auto simp: js_slice_from_def Let_def max_def nat_diff_distrib' intro: arg_cong2[where f = drop])
qed

lemma coerceNumber_min: "mn \<le> fallback \<Longrightarrow> mn \<le> coerceNumber v fallback mn"
  by (cases "(v, fallback, mn)" rule: coerceNumber.cases) auto

text \<open>Every configuration the loader produces has a cap of at least one line.\<close>

lemma loadOmConfig_cap: "1 \<le> maxObservationItems (loadOmConfig src)"
  by (cases src rule: loadOmConfig.cases)
     (simp_all add: normalizeOmConfig_def DEFAULT_OM_CONFIG_def coerceNumber_min)

lemma merge_lines:
  assumes "1 \<le> maxObservationItems cfg"
  shows "obs_lines (mergeObservationItems cfg D N) =
         drop (length (obs_lines D @ obs_lines N) - nat \<lfloor>maxObservationItems cfg\<rfloor>)
           (obs_lines D @ obs_lines N)"
proof -
  let ?m = "obs_lines D @ obs_lines N"
  let ?k = "drop (length ?m - nat \<lfloor>maxObservationItems cfg\<rfloor>) ?m"
  have "\<forall>l\<in>set ?k. l \<noteq> [] \<and> trim l = l \<and> nl \<notin> set l"
    using obs_lines_props by (metis Un_iff in_set_dropD set_append)
  then have "obs_lines (join [nl] ?k) = ?k" by (rule obs_lines_join)
  then show ?thesis
    using assms by (simp add: mergeObservationItems_def Let_def js_slice_from_neg)
qed

lemma merge_text:
  assumes "1 \<le> maxObservationItems cfg"
  shows "mergeObservationItems cfg D N =
         join [nl] (drop (length (obs_lines D @ obs_lines N) - nat \<lfloor>maxObservationItems cfg\<rfloor>)
           (obs_lines D @ obs_lines N))"
  using assms by (simp add: mergeObservationItems_def Let_def js_slice_from_neg)

subsection \<open>Claim C2: the Observer merge\<close>

text \<open>
  C2, first part as stated: with the cap at least one (as \<open>loadOmConfig_cap\<close> gives for
  every loaded configuration), merging a document \<open>D\<close> with new text \<open>N\<close> yields the last
  \<open>min cap (|D| + |N|)\<close> of the trimmed non-empty lines of \<open>D\<close> followed by those of \<open>N\<close>, in
  their order, joined by line breaks; \<open>cap\<close> is \<open>maxObservationItems\<close>, rounded down.
  Second part, amended: merging with the empty text yields the last \<open>min cap |D|\<close> lines
  of \<open>D\<close>. That leaves the lines of \<open>D\<close> as they are exactly when \<open>D\<close> has at most \<open>cap\<close>
  of them, and it leaves every text that a merge has produced as it is.
\<close>

theorem mergeObservationItems_append_then_cap:
  assumes "1 \<le> maxObservationItems cfg"
  defines "cap \<equiv> nat \<lfloor>maxObservationItems cfg\<rfloor>"
  shows "obs_lines (mergeObservationItems cfg D N) =
           drop (length (obs_lines D @ obs_lines N) - cap) (obs_lines D @ obs_lines N)
       \<and> length (obs_lines (mergeObservationItems cfg D N)) =
           min cap (length (obs_lines D) + length (obs_lines N))
       \<and> mergeObservationItems cfg D N =
           join [nl] (drop (length (obs_lines D @ obs_lines N) - cap) (obs_lines D @ obs_lines N))
       \<and> obs_lines (mergeObservationItems cfg D []) =
           drop (length (obs_lines D) - cap) (obs_lines D)
       \<and> (if length (obs_lines D) \<le> cap
            then obs_lines (mergeObservationItems cfg D []) = obs_lines D
            else obs_lines (mergeObservationItems cfg D []) \<noteq> obs_lines D)
       \<and> mergeObservationItems cfg (mergeObservationItems cfg D N) [] =
           mergeObservationItems cfg D N"
proof -
  have c1: "1 \<le> cap" using assms by (simp add: cap_def) linarith
  have a: "obs_lines (mergeObservationItems cfg D N) =
           drop (length (obs_lines D @ obs_lines N) - cap) (obs_lines D @ obs_lines N)" for D N
    unfolding cap_def by (rule merge_lines[OF assms(1)])
  have b: "length (obs_lines (mergeObservationItems cfg D N)) =
           min cap (length (obs_lines D) + length (obs_lines N))"
    by (simp add: a)
  have c: "mergeObservationItems cfg D N =
           join [nl] (drop (length (obs_lines D @ obs_lines N) - cap) (obs_lines D @ obs_lines N))"
    for D N
    unfolding cap_def by (rule merge_text[OF assms(1)])
  have d: "obs_lines (mergeObservationItems cfg D []) = drop (length (obs_lines D) - cap) (obs_lines D)"
    by (simp add: a obs_lines_Nil)
  have e: "(if length (obs_lines D) \<le> cap
            then obs_lines (mergeObservationItems cfg D []) = obs_lines D
            else obs_lines (mergeObservationItems cfg D []) \<noteq> obs_lines D)"
  proof (cases "length (obs_lines D) \<le> cap")
    case True then show ?thesis by (simp add: d)
  next
    case False
    then have "length (drop (length (obs_lines D) - cap) (obs_lines D)) \<noteq> length (obs_lines D)"
      using c1 by simp
    then show ?thesis using False by (metis d)
  qed
  have f: "mergeObservationItems cfg (mergeObservationItems cfg D N) [] =
           mergeObservationItems cfg D N"
  proof -
    let ?r = "obs_lines (mergeObservationItems cfg D N)"
    have "length ?r \<le> cap" by (simp add: b)
    then have "mergeObservationItems cfg (mergeObservationItems cfg D N) [] = join [nl] ?r"
      by (simp add: c[of "mergeObservationItems cfg D N" "[]"] obs_lines_Nil)
    also have "\<dots> = mergeObservationItems cfg D N"
      by (simp add: a) (simp add: c[of D N])
    finally show ?thesis .
  qed
  show ?thesis using a b c d e f by blast
qed

text \<open>
  The scenario of C2 as the witness: with a cap of 3, the lines A, B, C merged with the
  line D are B, C, D.
\<close>

theorem mergeObservationItems_append_then_cap_witness:
  "(1::rat) \<le> maxObservationItems (DEFAULT_OM_CONFIG\<lparr>maxObservationItems := 3\<rparr>)
   \<and> obs_lines (''A'' @ [nl] @ ''B'' @ [nl] @ ''C'') = [''A'', ''B'', ''C'']
   \<and> obs_lines ''D'' = [''D'']
   \<and> obs_lines (mergeObservationItems (DEFAULT_OM_CONFIG\<lparr>maxObservationItems := 3\<rparr>)
        (''A'' @ [nl] @ ''B'' @ [nl] @ ''C'') ''D'') = [''B'', ''C'', ''D'']"
proof -
  have h: "(1::rat) \<le> maxObservationItems (DEFAULT_OM_CONFIG\<lparr>maxObservationItems := 3\<rparr>)"
    by simp
  have k: "nat \<lfloor>maxObservationItems (DEFAULT_OM_CONFIG\<lparr>maxObservationItems := 3\<rparr>)\<rfloor> = 3"
    by simp
  have l: "obs_lines (''A'' @ [nl] @ ''B'' @ [nl] @ ''C'') = [''A'', ''B'', ''C'']"
    by code_simp
  have r: "obs_lines ''D'' = [''D'']"
    by code_simp
  have "obs_lines (mergeObservationItems (DEFAULT_OM_CONFIG\<lparr>maxObservationItems := 3\<rparr>)
        (''A'' @ [nl] @ ''B'' @ [nl] @ ''C'') ''D'') =
        drop (length (obs_lines (''A'' @ [nl] @ ''B'' @ [nl] @ ''C'') @ obs_lines ''D'')
               - nat \<lfloor>maxObservationItems (DEFAULT_OM_CONFIG\<lparr>maxObservationItems := 3\<rparr>)\<rfloor>)
          (obs_lines (''A'' @ [nl] @ ''B'' @ [nl] @ ''C'') @ obs_lines ''D'')"
    using mergeObservationItems_append_then_cap [OF h, of "''A'' @ [nl] @ ''B'' @ [nl] @ ''C''" "''D''"]
    by (rule conjunct1)
  then have "obs_lines (mergeObservationItems (DEFAULT_OM_CONFIG\<lparr>maxObservationItems := 3\<rparr>)
        (''A'' @ [nl] @ ''B'' @ [nl] @ ''C'') ''D'') = [''B'', ''C'', ''D'']"
    unfolding k l r by simp
  with h l r show ?thesis by (intro conjI)
qed

text \<open>
  The second part of C2 as stated fails: with a cap of 1, merging the two-line document
  a, b with the empty text leaves the one line b.
\<close>

theorem mergeObservationItems_empty_counterexample:
  "mergeObservationItems (DEFAULT_OM_CONFIG\<lparr>maxObservationItems := 1\<rparr>) (''a'' @ [nl] @ ''b'') [] = ''b''
   \<and> mergeObservationItems (DEFAULT_OM_CONFIG\<lparr>maxObservationItems := 1\<rparr>) (''a'' @ [nl] @ ''b'') []
       \<noteq> ''a'' @ [nl] @ ''b''
   \<and> obs_lines (mergeObservationItems (DEFAULT_OM_CONFIG\<lparr>maxObservationItems := 1\<rparr>)
        (''a'' @ [nl] @ ''b'') []) \<noteq> obs_lines (''a'' @ [nl] @ ''b'')"
  by code_simp

subsection \<open>Fields of the state across the operations\<close>

lemma recompute_fields [simp]:
  "pendingSegments (recomputePendingCounters s) = pendingSegments s"
  "pendingTokens (recomputePendingCounters s) = sum_list (map tokens (pendingSegments s))"
  "isBufferingObservation (recomputePendingCounters s) = isBufferingObservation s"
  "isBufferingReflection (recomputePendingCounters s) = isBufferingReflection s"
  "observations (recomputePendingCounters s) = observations s"
  "observationRuns (recomputePendingCounters s) = observationRuns s"
  by (simp_all add: recomputePendingCounters_def)

lemma push_fields [simp]:
  "isBufferingObservation (pushPendingSegment rid now sid sc txt toks s) = isBufferingObservation s"
  "isBufferingReflection (pushPendingSegment rid now sid sc txt toks s) = isBufferingReflection s"
  "pendingTokens (pushPendingSegment rid now sid sc txt toks s) =
     sum_list (map tokens (pendingSegments s)) + max 1 toks"
  "map tokens (pendingSegments (pushPendingSegment rid now sid sc txt toks s)) =
     map tokens (pendingSegments s) @ [max 1 toks]"
  "length (pendingSegments (pushPendingSegment rid now sid sc txt toks s)) = Suc (length (pendingSegments s))"
  "pendingSegments (pushPendingSegment rid now sid sc txt toks s) \<noteq> []"
  "butlast (pendingSegments (pushPendingSegment rid now sid sc txt toks s)) = pendingSegments s"
  "tokens (last (pendingSegments (pushPendingSegment rid now sid sc txt toks s))) = max 1 toks"
  "observations (pushPendingSegment rid now sid sc txt toks s) = observations s"
  by (simp_all add: pushPendingSegment_def)

lemma persist_fields [simp]:
  "pendingSegments (persistState scope s) = pendingSegments s"
  "pendingTokens (persistState scope s) = sum_list (map tokens (pendingSegments s))"
  "isBufferingObservation (persistState scope s) = isBufferingObservation s"
  "isBufferingReflection (persistState scope s) = isBufferingReflection s"
  "observations (persistState scope s) = observations s"
  "observationRuns (persistState scope s) = observationRuns s"
  by (simp_all add: persistState_def Let_def)

lemma observeNow_start_cases:
  "observeNow_start s =
     (if pendingSegments s = [] \<or> isBufferingObservation s then (s, None)
      else (s\<lparr>isBufferingObservation := True\<rparr>,
            Some \<lparr>promptObservations = observations s,
                  transcript = buildTranscriptFromSegments (pendingSegments s),
                  inputTokens = pendingTokens s\<rparr>))"
  by (simp add: observeNow_start_def)

lemma reflectNow_start_cases:
  "reflectNow_start cfg s =
     (if \<not> enableReflection cfg \<or> trim (observations s) = [] \<or> isBufferingReflection s then (s, None)
      else (s\<lparr>isBufferingReflection := True\<rparr>,
            Some \<lparr>beforeObservations = observations s, beforeTokens = observationTokens s\<rparr>))"
  by (simp add: reflectNow_start_def)

lemma runObserverCall_state:
  "runObserverCall cfg b now eo tr it s = Returned (s0, r) \<Longrightarrow>
     pendingSegments s0 = pendingSegments s \<and> pendingTokens s0 = pendingTokens s
     \<and> isBufferingObservation s0 = isBufferingObservation s
     \<and> isBufferingReflection s0 = isBufferingReflection s
     \<and> observations s0 = observations s \<and> observationRuns s0 = observationRuns s
     \<and> (r = None \<longrightarrow> s0 = s)"
  by (auto simp: runObserverCall_def Let_def split: outcome.splits option.splits if_splits)











lemma loadState_fields:
  "\<not> isBufferingObservation (loadState scope rids now row entries)"
  "\<not> isBufferingReflection (loadState scope rids now row entries)"
  "in_sync (loadState scope rids now row entries)"
proof -
  have c: "\<not> isBufferingObservation (coerceState scope rids now raw)
        \<and> \<not> isBufferingReflection (coerceState scope rids now raw)" for raw
    by (cases "(scope, rids, now, raw)" rule: coerceState.cases)
       (simp_all add: coerceFields_def createInitialState_def)
  show "\<not> isBufferingObservation (loadState scope rids now row entries)"
    using c by (simp add: loadState_def Let_def createInitialState_def split: option.splits)
  show "\<not> isBufferingReflection (loadState scope rids now row entries)"
    using c by (simp add: loadState_def Let_def createInitialState_def split: option.splits)
  show "in_sync (loadState scope rids now row entries)"
    by (simp add: loadState_def Let_def in_sync_def)
qed






subsection \<open>Claim C10: state recovery clears the flags\<close>

text \<open>
  C10: whatever the persisted data (the row of the durable store, the state entries of
  the session branch, or none at all), the recovered state has both flags cleared and
  its token total recomputed from its segment list. So after a reload an Observer run
  starts whenever a segment is pending, and a Reflector run starts whenever reflection
  is enabled and there are observations: no flag of the persisted state blocks them.
\<close>

theorem loadState_clears_flags:
  "(let s = loadState scope rids now row entries
    in \<not> isBufferingObservation s \<and> \<not> isBufferingReflection s
       \<and> pendingTokens s = sum_list (map tokens (pendingSegments s))
       \<and> observeNow_start s =
           (if pendingSegments s = [] then (s, None)
            else (s\<lparr>isBufferingObservation := True\<rparr>,
                  Some \<lparr>promptObservations = observations s,
                        transcript = buildTranscriptFromSegments (pendingSegments s),
                        inputTokens = pendingTokens s\<rparr>))
       \<and> reflectNow_start cfg s =
           (if enableReflection cfg \<and> trim (observations s) \<noteq> []
            then (s\<lparr>isBufferingReflection := True\<rparr>,
                  Some \<lparr>beforeObservations = observations s, beforeTokens = observationTokens s\<rparr>)
            else (s, None)))"
  using loadState_fields[of scope rids now row entries]
  by (simp add: Let_def in_sync_def observeNow_start_cases reflectNow_start_cases)

text \<open>A persisted state with both flags set and a stale token total, recovered.\<close>

lemma loadState_clears_flags_example:
  "isBufferingObservation (loadState Thread (\<lambda>i. ''seg_r'') ''t1''
      (Some (JObj [(''isBufferingObservation'', JBool True), (''isBufferingReflection'', JBool True),
                   (''pendingTokens'', JNum 7),
                   (''pendingSegments'', JArr [JObj [(''id'', JStr ''seg_a''), (''text'', JStr ''hi''),
                                               (''tokens'', JNum 3)]])])) []) = False
   \<and> pendingTokens (loadState Thread (\<lambda>i. ''seg_r'') ''t1''
      (Some (JObj [(''isBufferingObservation'', JBool True), (''isBufferingReflection'', JBool True),
                   (''pendingTokens'', JNum 7),
                   (''pendingSegments'', JArr [JObj [(''id'', JStr ''seg_a''), (''text'', JStr ''hi''),
                                               (''tokens'', JNum 3)]])])) []) = 3"
  by code_simp

subsection \<open>Claim C9: every appended segment counts at least one token\<close>




subsection \<open>Runs: helper facts\<close>

lemma trim_Nil [simp]: "trim [] = []"
  by (simp add: trim_def)

lemma flag_obs_off: "\<not> isBufferingObservation s \<Longrightarrow> s\<lparr>isBufferingObservation := False\<rparr> = s"
  by (cases s) simp

lemma flag_refl_off: "\<not> isBufferingReflection s \<Longrightarrow> s\<lparr>isBufferingReflection := False\<rparr> = s"
  by (cases s) simp

lemma runObserverCall_empty:
  assumes "channel_text True b (buildObserverPrompt cfg eo tr) = Returned (Some out)"
      and "sec_observations (parseOmSections out) = []"
  shows "runObserverCall cfg b now eo tr it s = Returned (s, None)"
  using assms by (simp add: runObserverCall_def Let_def)

lemma observeNow_settle_empty:
  assumes "channel_text True b (buildObserverPrompt cfg (promptObservations snap) (transcript snap))
             = Returned (Some out)"
      and "sec_observations (parseOmSections out) = []"
  shows "observeNow_settle cfg b now t snap s =
           (s\<lparr>isBufferingObservation := False\<rparr>, ObserveEnded (Completed False))"
  using runObserverCall_empty[OF assms] by (simp add: observeNow_settle_def)

lemma turn_end_start_cases:
  "turn_end_start cfg scope rid now turnIndex serializedTurn est s =
     (let s1 = pushPendingSegment rid now None None
                 (''[Turn '' @ turnIndex @ '']'' @ [nl] @ serializedTurn) est s
      in if 0 < autoObservePendingTokenThreshold cfg
            \<and> autoObservePendingTokenThreshold cfg \<le> pendingTokens s1
            \<and> \<not> isBufferingObservation s
         then (s1\<lparr>isBufferingObservation := True\<rparr>,
               Some \<lparr>promptObservations = observations s,
                     transcript = buildTranscriptFromSegments (pendingSegments s1),
                     inputTokens = pendingTokens s1\<rparr>)
         else (persistState scope s1, None))"
  by (simp add: turn_end_start_def Let_def observeNow_start_cases)

lemma runObserverCall_some:
  "runObserverCall cfg b now eo tr it s = Returned (s0, Some parsed) \<Longrightarrow>
     s0 = s\<lparr>lastCompressionRatio := lastCompressionRatio s0, lastObservedAt := lastObservedAt s0\<rparr>"
  by (auto simp: runObserverCall_def Let_def split: outcome.splits option.splits if_splits)

lemma observeNow_settle_clears_buffer:
  "(case observeNow_settle cfg b now t snap s of
      (s', ObserveEnded (Completed False)) \<Rightarrow> s' = s\<lparr>isBufferingObservation := False\<rparr>
    | (s', ObserveEnded Escaped) \<Rightarrow> s' = s\<lparr>isBufferingObservation := False\<rparr>
    | (s', ObserveEnded (Completed True)) \<Rightarrow> pendingSegments s' = [] \<and> pendingTokens s' = 0
    | (s', ObserveReflects rsnap) \<Rightarrow> pendingSegments s' = [] \<and> pendingTokens s' = 0)"
  by (auto simp: observeNow_settle_def Let_def reflectNow_start_cases
      dest!: runObserverCall_state
      split: outcome.splits option.splits if_splits prod.splits observe_step.splits run_result.splits bool.splits)

lemma runReflectorCall_some:
  "runReflectorCall cfg b obs ag = Returned (Some parsed) \<Longrightarrow> trim (sec_observations parsed) \<noteq> []"
  by (auto simp: runReflectorCall_def Let_def split: outcome.splits option.splits if_splits)

lemma reflectNow_settle_success:
  assumes "runReflectorCall cfg b (beforeObservations snap) ag = Returned (Some parsed)"
  shows "observations (fst (reflectNow_settle cfg scope now b ag reason snap s))
           = mergeObservationItems cfg [] (sec_observations parsed)"
    and "snd (reflectNow_settle cfg scope now b ag reason snap s) = Completed True"
  using assms runReflectorCall_some[OF assms]
  by (simp_all add: reflectNow_settle_def Let_def split: option.splits)

lemma reflectNow_settle_failure:
  "runReflectorCall cfg b (beforeObservations snap) ag = Returned None \<Longrightarrow>
     reflectNow_settle cfg scope now b ag reason snap s = (s\<lparr>isBufferingReflection := False\<rparr>, Completed False)"
  "runReflectorCall cfg b (beforeObservations snap) ag = Threw \<Longrightarrow>
     reflectNow_settle cfg scope now b ag reason snap s = (s\<lparr>isBufferingReflection := False\<rparr>, Escaped)"
  by (simp_all add: reflectNow_settle_def)

subsection \<open>Claim C1: reflection replaces the observations\<close>

text \<open>
  C1, amended. Take a Reflector run that starts on a document with observations \<open>L\<close>
  (reflection enabled, \<open>L\<close> not blank, no Reflector run in flight) and that nothing
  interleaves with; the cap is at least one. If the run parses an observations section
  \<open>T\<close> out of the model output, it succeeds and leaves as observations the last
  \<open>min cap n\<close> of the \<open>n\<close> trimmed non-empty lines of \<open>T\<close>, joined by line breaks: a
  function of \<open>T\<close> alone, in which no line of \<open>L\<close> has a part, and exactly the lines
  of \<open>T\<close> when there are at most \<open>cap\<close> of them. If the output has no observations
  section, or the external call throws, the state is exactly as before the run.
\<close>

theorem reflectNow_replaces:
  assumes "1 \<le> maxObservationItems cfg"
      and "enableReflection cfg" and "trim (observations s) \<noteq> []" and "\<not> isBufferingReflection s"
  shows "(case runReflectorCall cfg b (observations s) aggressive of
            Returned (Some parsed) \<Rightarrow>
              snd (reflectNow cfg scope now b aggressive reason s) = Completed True
              \<and> observations (fst (reflectNow cfg scope now b aggressive reason s)) =
                  join [nl] (drop (length (obs_lines (sec_observations parsed))
                                    - nat \<lfloor>maxObservationItems cfg\<rfloor>)
                              (obs_lines (sec_observations parsed)))
              \<and> obs_lines (observations (fst (reflectNow cfg scope now b aggressive reason s))) =
                  drop (length (obs_lines (sec_observations parsed)) - nat \<lfloor>maxObservationItems cfg\<rfloor>)
                    (obs_lines (sec_observations parsed))
              \<and> (length (obs_lines (sec_observations parsed)) \<le> nat \<lfloor>maxObservationItems cfg\<rfloor>
                   \<longrightarrow> obs_lines (observations (fst (reflectNow cfg scope now b aggressive reason s)))
                        = obs_lines (sec_observations parsed))
          | Returned None \<Rightarrow> reflectNow cfg scope now b aggressive reason s = (s, Completed False)
          | Threw \<Rightarrow> reflectNow cfg scope now b aggressive reason s = (s, Escaped))"
proof -
  let ?snap = "\<lparr>beforeObservations = observations s, beforeTokens = observationTokens s\<rparr>"
  let ?s1 = "s\<lparr>isBufferingReflection := True\<rparr>"
  have run: "reflectNow cfg scope now b aggressive reason s
               = reflectNow_settle cfg scope now b aggressive reason ?snap ?s1"
    using assms(2,3,4) by (simp add: reflectNow_def reflectNow_start_cases)
  have off: "?s1\<lparr>isBufferingReflection := False\<rparr> = s"
    using assms(4) by (cases s) simp
  show ?thesis
  proof (cases "runReflectorCall cfg b (observations s) aggressive")
    case Threw
    then show ?thesis using run off reflectNow_settle_failure(2)[of cfg b ?snap aggressive] by simp
  next
    case (Returned r)
    show ?thesis
    proof (cases r)
      case None
      then show ?thesis
        using Returned run off reflectNow_settle_failure(1)[of cfg b ?snap aggressive] by simp
    next
      case (Some parsed)
      have c: "runReflectorCall cfg b (beforeObservations ?snap) aggressive = Returned (Some parsed)"
        using Returned Some by simp
      have o: "observations (fst (reflectNow cfg scope now b aggressive reason s))
                 = mergeObservationItems cfg [] (sec_observations parsed)"
        unfolding run by (rule reflectNow_settle_success(1)[OF c])
      have r: "snd (reflectNow cfg scope now b aggressive reason s) = Completed True"
        unfolding run by (rule reflectNow_settle_success(2)[OF c])
      have t: "mergeObservationItems cfg [] (sec_observations parsed) =
                 join [nl] (drop (length (obs_lines (sec_observations parsed))
                                    - nat \<lfloor>maxObservationItems cfg\<rfloor>)
                              (obs_lines (sec_observations parsed)))"
        using merge_text[OF assms(1), of "[]" "sec_observations parsed"] by (simp add: obs_lines_Nil)
      have l: "obs_lines (mergeObservationItems cfg [] (sec_observations parsed)) =
                  drop (length (obs_lines (sec_observations parsed)) - nat \<lfloor>maxObservationItems cfg\<rfloor>)
                    (obs_lines (sec_observations parsed))"
        using merge_lines[OF assms(1), of "[]" "sec_observations parsed"] by (simp add: obs_lines_Nil)
      have o2: "observations (fst (reflectNow cfg scope now b aggressive reason s)) =
                  join [nl] (drop (length (obs_lines (sec_observations parsed))
                                    - nat \<lfloor>maxObservationItems cfg\<rfloor>)
                              (obs_lines (sec_observations parsed)))"
        using o t by simp
      have l2: "obs_lines (observations (fst (reflectNow cfg scope now b aggressive reason s))) =
                  drop (length (obs_lines (sec_observations parsed)) - nat \<lfloor>maxObservationItems cfg\<rfloor>)
                    (obs_lines (sec_observations parsed))"
        using o l by simp
      have i: "length (obs_lines (sec_observations parsed)) \<le> nat \<lfloor>maxObservationItems cfg\<rfloor>
                   \<longrightarrow> obs_lines (observations (fst (reflectNow cfg scope now b aggressive reason s)))
                        = obs_lines (sec_observations parsed)"
        using l2 by simp
      have c4: "snd (reflectNow cfg scope now b aggressive reason s) = Completed True
              \<and> observations (fst (reflectNow cfg scope now b aggressive reason s)) =
                  join [nl] (drop (length (obs_lines (sec_observations parsed))
                                    - nat \<lfloor>maxObservationItems cfg\<rfloor>)
                              (obs_lines (sec_observations parsed)))
              \<and> obs_lines (observations (fst (reflectNow cfg scope now b aggressive reason s))) =
                  drop (length (obs_lines (sec_observations parsed)) - nat \<lfloor>maxObservationItems cfg\<rfloor>)
                    (obs_lines (sec_observations parsed))
              \<and> (length (obs_lines (sec_observations parsed)) \<le> nat \<lfloor>maxObservationItems cfg\<rfloor>
                   \<longrightarrow> obs_lines (observations (fst (reflectNow cfg scope now b aggressive reason s)))
                        = obs_lines (sec_observations parsed))"
        using r o2 l2 i by (intro conjI)
      show ?thesis unfolding Returned Some outcome.case option.case by (rule c4)
    qed
  qed
qed

text \<open>
  The witness, on a successful run: the model output carries the observations section
  with the lines x and y, a blank line between them; the document held the line old and
  holds x and y afterwards.
\<close>

theorem reflectNow_replaces_witness:
  "(1::rat) \<le> maxObservationItems DEFAULT_OM_CONFIG
   \<and> enableReflection DEFAULT_OM_CONFIG
   \<and> trim (observations ((createInitialState Thread)\<lparr>observations := ''old''\<rparr>)) \<noteq> []
   \<and> \<not> isBufferingReflection ((createInitialState Thread)\<lparr>observations := ''old''\<rparr>)
   \<and> runReflectorCall DEFAULT_OM_CONFIG
        \<lparr> isGeminiCliAvailable = True,
          callGeminiCli = (\<lambda>p. Returned (''<observations>x'' @ [nl] @ [nl] @ ''  y</observations>'')),
          resolveCompressionModel = False, complete = (\<lambda>p. Threw) \<rparr>
        (observations ((createInitialState Thread)\<lparr>observations := ''old''\<rparr>)) False
       = Returned (Some \<lparr>sec_observations = ''x'' @ [nl] @ [nl] @ ''  y'', sec_currentTask = None,
                         sec_suggestedResponse = None\<rparr>)
   \<and> obs_lines (''x'' @ [nl] @ [nl] @ ''  y'') = [''x'', ''y'']
   \<and> observations (fst (reflectNow DEFAULT_OM_CONFIG Thread ''t1''
        \<lparr> isGeminiCliAvailable = True,
          callGeminiCli = (\<lambda>p. Returned (''<observations>x'' @ [nl] @ [nl] @ ''  y</observations>'')),
          resolveCompressionModel = False, complete = (\<lambda>p. Threw) \<rparr>
        False ''manual'' ((createInitialState Thread)\<lparr>observations := ''old''\<rparr>)))
       = ''x'' @ [nl] @ ''y''"
proof -
  let ?s = "(createInitialState Thread)\<lparr>observations := ''old''\<rparr>"
  let ?b = "\<lparr> isGeminiCliAvailable = True,
          callGeminiCli = (\<lambda>p. Returned (''<observations>x'' @ [nl] @ [nl] @ ''  y</observations>'')),
          resolveCompressionModel = False, complete = (\<lambda>p. Threw) \<rparr>"
  have h1: "(1::rat) \<le> maxObservationItems DEFAULT_OM_CONFIG" by (simp add: DEFAULT_OM_CONFIG_def)
  have h2: "enableReflection DEFAULT_OM_CONFIG" by (simp add: DEFAULT_OM_CONFIG_def)
  have h3: "trim (observations ?s) \<noteq> []" by code_simp
  have h4: "\<not> isBufferingReflection ?s" by (simp add: createInitialState_def)
  have r: "runReflectorCall DEFAULT_OM_CONFIG ?b (observations ?s) False
       = Returned (Some \<lparr>sec_observations = ''x'' @ [nl] @ [nl] @ ''  y'', sec_currentTask = None,
                         sec_suggestedResponse = None\<rparr>)"
    by code_simp
  have l: "obs_lines (''x'' @ [nl] @ [nl] @ ''  y'') = [''x'', ''y'']" by code_simp
  have k: "nat \<lfloor>maxObservationItems DEFAULT_OM_CONFIG\<rfloor> = 1200" by (simp add: DEFAULT_OM_CONFIG_def)
  from reflectNow_replaces[OF h1 h2 h3 h4, where b = ?b and aggressive = False and scope = Thread
      and now = "''t1''" and reason = "''manual''"]
  have "observations (fst (reflectNow DEFAULT_OM_CONFIG Thread ''t1'' ?b False ''manual'' ?s))
          = join [nl] (drop (length (obs_lines (''x'' @ [nl] @ [nl] @ ''  y''))
                                    - nat \<lfloor>maxObservationItems DEFAULT_OM_CONFIG\<rfloor>)
                              (obs_lines (''x'' @ [nl] @ [nl] @ ''  y'')))"
    unfolding r outcome.case option.case by simp
  then have "observations (fst (reflectNow DEFAULT_OM_CONFIG Thread ''t1'' ?b False ''manual'' ?s))
          = ''x'' @ [nl] @ ''y''"
    unfolding l k by simp
  with h1 h2 h3 h4 r l show ?thesis by (intro conjI)
qed

text \<open>
  C1 as stated fails when the parsed output has more lines than the cap: with a cap of
  1 and the parsed lines a, b, the run succeeds and leaves the single line b, not a, b.
\<close>

theorem reflectNow_exceeds_cap_counterexample:
  "runReflectorCall (DEFAULT_OM_CONFIG\<lparr>maxObservationItems := 1\<rparr>)
      \<lparr> isGeminiCliAvailable = True,
        callGeminiCli = (\<lambda>p. Returned (''<observations>a'' @ [nl] @ ''b</observations>'')),
        resolveCompressionModel = False, complete = (\<lambda>p. Threw) \<rparr>
      ''old'' False
     = Returned (Some \<lparr>sec_observations = ''a'' @ [nl] @ ''b'', sec_currentTask = None,
                       sec_suggestedResponse = None\<rparr>)
   \<and> obs_lines (''a'' @ [nl] @ ''b'') = [''a'', ''b'']
   \<and> reflectNow (DEFAULT_OM_CONFIG\<lparr>maxObservationItems := 1\<rparr>) Thread ''t1''
      \<lparr> isGeminiCliAvailable = True,
        callGeminiCli = (\<lambda>p. Returned (''<observations>a'' @ [nl] @ ''b</observations>'')),
        resolveCompressionModel = False, complete = (\<lambda>p. Threw) \<rparr>
      False ''manual'' ((createInitialState Thread)\<lparr>observations := ''old''\<rparr>)
     = ((createInitialState Thread)\<lparr>observations := ''b'', observationTokens := 1,
          reflectionRuns := 1,
          reflections := [JObj [(''at'', JStr ''t1''), (''beforeTokens'', JNum 0),
                                (''afterTokens'', JNum 1), (''preview'', JStr ''manual: b'')]]\<rparr>,
        Completed True)"
  by code_simp

subsection \<open>Claim C3: single flight per kind of run\<close>



subsection \<open>Claim C4: what a successful Observer run clears\<close>

text \<open>
  C4, amended. Let an Observer run start in state \<open>s0\<close>; the transcript it sends is built
  from the segments pending in \<open>s0\<close>. Let a segment be appended while the run is in
  flight. When the external call settles, a run that succeeds empties the whole pending
  buffer, the later segment included, and sets the token total to 0; a run that fails
  or whose call throws leaves the buffer as it is, with the later segment. The same
  holds in whatever state the call settles.
\<close>

theorem observer_success_clears_later_appends:
  assumes "observeNow_start s0 = (s1, Some snap)"
      and "s2 = pushPendingSegment rid now' sid screated stext stokens s1"
  shows "transcript snap = buildTranscriptFromSegments (pendingSegments s0)
       \<and> butlast (pendingSegments s2) = pendingSegments s0
       \<and> (case observeNow_settle cfg b now t snap s2 of
            (s', ObserveEnded (Completed False)) \<Rightarrow> pendingSegments s' = pendingSegments s2
          | (s', ObserveEnded Escaped) \<Rightarrow> pendingSegments s' = pendingSegments s2
          | (s', ObserveEnded (Completed True)) \<Rightarrow> pendingSegments s' = [] \<and> pendingTokens s' = 0
          | (s', ObserveReflects rsnap) \<Rightarrow> pendingSegments s' = [] \<and> pendingTokens s' = 0)
       \<and> (\<forall>s. case observeNow_settle cfg b now t snap s of
            (s', ObserveEnded (Completed False)) \<Rightarrow> s' = s\<lparr>isBufferingObservation := False\<rparr>
          | (s', ObserveEnded Escaped) \<Rightarrow> s' = s\<lparr>isBufferingObservation := False\<rparr>
          | (s', ObserveEnded (Completed True)) \<Rightarrow> pendingSegments s' = [] \<and> pendingTokens s' = 0
          | (s', ObserveReflects rsnap) \<Rightarrow> pendingSegments s' = [] \<and> pendingTokens s' = 0)"
proof -
  have a: "transcript snap = buildTranscriptFromSegments (pendingSegments s0)"
          "pendingSegments s1 = pendingSegments s0"
    using assms(1) by (auto simp: observeNow_start_cases split: if_splits)
  have g: "(case observeNow_settle cfg b now t snap s of
            (s', ObserveEnded (Completed False)) \<Rightarrow> s' = s\<lparr>isBufferingObservation := False\<rparr>
          | (s', ObserveEnded Escaped) \<Rightarrow> s' = s\<lparr>isBufferingObservation := False\<rparr>
          | (s', ObserveEnded (Completed True)) \<Rightarrow> pendingSegments s' = [] \<and> pendingTokens s' = 0
          | (s', ObserveReflects rsnap) \<Rightarrow> pendingSegments s' = [] \<and> pendingTokens s' = 0)" for s
    by (rule observeNow_settle_clears_buffer)
  have c: "(case observeNow_settle cfg b now t snap s2 of
            (s', ObserveEnded (Completed False)) \<Rightarrow> pendingSegments s' = pendingSegments s2
          | (s', ObserveEnded Escaped) \<Rightarrow> pendingSegments s' = pendingSegments s2
          | (s', ObserveEnded (Completed True)) \<Rightarrow> pendingSegments s' = [] \<and> pendingTokens s' = 0
          | (s', ObserveReflects rsnap) \<Rightarrow> pendingSegments s' = [] \<and> pendingTokens s' = 0)"
    using g[of s2]
    by (auto split: prod.splits observe_step.splits run_result.splits bool.splits)
  show ?thesis using a c g by (simp add: assms(2))
qed

text \<open>
  The witness: the run starts with one pending turn, a second turn is appended in flight.
\<close>

theorem observer_success_clears_later_appends_witness:
  "observeNow_start (pushPendingSegment ''seg_1'' ''t1'' None None ''turn A'' 5 (createInitialState Thread))
     = ((pushPendingSegment ''seg_1'' ''t1'' None None ''turn A'' 5 (createInitialState Thread))
          \<lparr>isBufferingObservation := True\<rparr>,
        Some \<lparr>promptObservations = [], transcript = ''turn A'', inputTokens = 5\<rparr>)
   \<and> butlast (pendingSegments
        (pushPendingSegment ''seg_2'' ''t2'' None None ''turn B'' 7
          ((pushPendingSegment ''seg_1'' ''t1'' None None ''turn A'' 5 (createInitialState Thread))
             \<lparr>isBufferingObservation := True\<rparr>)))
       = pendingSegments (pushPendingSegment ''seg_1'' ''t1'' None None ''turn A'' 5 (createInitialState Thread))
   \<and> transcript \<lparr>promptObservations = [], transcript = ''turn A'', inputTokens = 5\<rparr>
       = buildTranscriptFromSegments
           (pendingSegments (pushPendingSegment ''seg_1'' ''t1'' None None ''turn A'' 5 (createInitialState Thread)))"
proof -
  let ?s0 = "pushPendingSegment ''seg_1'' ''t1'' None None ''turn A'' 5 (createInitialState Thread)"
  let ?s1 = "?s0\<lparr>isBufferingObservation := True\<rparr>"
  let ?snap = "\<lparr>promptObservations = [], transcript = ''turn A'', inputTokens = 5\<rparr>"
  let ?s2 = "pushPendingSegment ''seg_2'' ''t2'' None None ''turn B'' 7 ?s1"
  have h1: "observeNow_start ?s0 = (?s1, Some ?snap)"
    by (simp add: observeNow_start_cases createInitialState_def pushPendingSegment_def
          recomputePendingCounters_def buildTranscriptFromSegments_def)
  have h2: "?s2 = pushPendingSegment ''seg_2'' ''t2'' None None ''turn B'' 7 ?s1" by (rule refl)
  from observer_success_clears_later_appends[OF h1 h2]
  have "transcript ?snap = buildTranscriptFromSegments (pendingSegments ?s0)"
       "butlast (pendingSegments ?s2) = pendingSegments ?s0"
    by blast+
  with h1 show ?thesis by (intro conjI)
qed

text \<open>
  C4 as stated fails: the run is started on the pending turn A, turn B is appended while
  it is in flight and is no part of the transcript sent, the run succeeds, and the
  pending buffer is empty: turn B does not remain.
\<close>

theorem observer_later_append_lost_counterexample:
  "observeNow_start (pushPendingSegment ''seg_1'' ''t1'' None None ''turn A'' 5 (createInitialState Thread))
     = ((pushPendingSegment ''seg_1'' ''t1'' None None ''turn A'' 5 (createInitialState Thread))
          \<lparr>isBufferingObservation := True\<rparr>,
        Some \<lparr>promptObservations = [], transcript = ''turn A'', inputTokens = 5\<rparr>)
   \<and> map seg_text (pendingSegments
        (pushPendingSegment ''seg_2'' ''t2'' None None ''turn B'' 7
          ((pushPendingSegment ''seg_1'' ''t1'' None None ''turn A'' 5 (createInitialState Thread))
             \<lparr>isBufferingObservation := True\<rparr>))) = [''turn A'', ''turn B'']
   \<and> snd (observeNow_settle DEFAULT_OM_CONFIG
        \<lparr> isGeminiCliAvailable = True,
          callGeminiCli = (\<lambda>p. Returned ''<observations>saw turn A</observations>''),
          resolveCompressionModel = False, complete = (\<lambda>p. Threw) \<rparr>
        ''t3'' False \<lparr>promptObservations = [], transcript = ''turn A'', inputTokens = 5\<rparr>
        (pushPendingSegment ''seg_2'' ''t2'' None None ''turn B'' 7
          ((pushPendingSegment ''seg_1'' ''t1'' None None ''turn A'' 5 (createInitialState Thread))
             \<lparr>isBufferingObservation := True\<rparr>))) = ObserveEnded (Completed True)
   \<and> pendingSegments (fst (observeNow_settle DEFAULT_OM_CONFIG
        \<lparr> isGeminiCliAvailable = True,
          callGeminiCli = (\<lambda>p. Returned ''<observations>saw turn A</observations>''),
          resolveCompressionModel = False, complete = (\<lambda>p. Threw) \<rparr>
        ''t3'' False \<lparr>promptObservations = [], transcript = ''turn A'', inputTokens = 5\<rparr>
        (pushPendingSegment ''seg_2'' ''t2'' None None ''turn B'' 7
          ((pushPendingSegment ''seg_1'' ''t1'' None None ''turn A'' 5 (createInitialState Thread))
             \<lparr>isBufferingObservation := True\<rparr>)))) = []"
  by code_simp

subsection \<open>Claim C5: an empty parsed observations section\<close>

text \<open>
  C5. Take an Observer run that starts (a segment is pending, no Observer run in
  flight) and whose external call yields a text with an empty parsed observations
  section. The run returns false and the state is exactly as before: the run counter,
  the observations and the pending segments are unchanged, and the pending segments are
  not empty. In whatever state the call settles, only the flag is cleared.
\<close>

theorem observeNow_empty_parse_fails:
  assumes "pendingSegments s \<noteq> []" and "\<not> isBufferingObservation s"
      and "channel_text True b
             (buildObserverPrompt cfg (observations s) (buildTranscriptFromSegments (pendingSegments s)))
           = Returned (Some out)"
      and "sec_observations (parseOmSections out) = []"
  shows "observeNow cfg scope b now t s = (s, Completed False)
       \<and> observationRuns (fst (observeNow cfg scope b now t s)) = observationRuns s
       \<and> observations (fst (observeNow cfg scope b now t s)) = observations s
       \<and> pendingSegments (fst (observeNow cfg scope b now t s)) = pendingSegments s
       \<and> pendingSegments (fst (observeNow cfg scope b now t s)) \<noteq> []
       \<and> (\<forall>s'. observeNow_settle cfg b now t
                  \<lparr>promptObservations = observations s,
                   transcript = buildTranscriptFromSegments (pendingSegments s),
                   inputTokens = pendingTokens s\<rparr> s'
                = (s'\<lparr>isBufferingObservation := False\<rparr>, ObserveEnded (Completed False)))"
proof -
  let ?snap = "\<lparr>promptObservations = observations s,
                 transcript = buildTranscriptFromSegments (pendingSegments s),
                 inputTokens = pendingTokens s\<rparr>"
  have hst: "observeNow_start s = (s\<lparr>isBufferingObservation := True\<rparr>, Some ?snap)"
    using assms(1,2) by (simp add: observeNow_start_cases)
  have hse: "observeNow_settle cfg b now t ?snap s' =
              (s'\<lparr>isBufferingObservation := False\<rparr>, ObserveEnded (Completed False))" for s'
    by (rule observeNow_settle_empty[where out = out]) (simp_all add: assms)
  have "observeNow cfg scope b now t s = (s\<lparr>isBufferingObservation := False\<rparr>, Completed False)"
    by (simp add: observeNow_def hst hse)
  then have r: "observeNow cfg scope b now t s = (s, Completed False)"
    using assms(2) by (simp add: flag_obs_off)
  show ?thesis using r hse assms(1) by simp
qed

text \<open>
  The witness: the command-line channel answers with a text that has no sections.
\<close>

theorem observeNow_empty_parse_fails_witness:
  "pendingSegments (pushPendingSegment ''seg_1'' ''t1'' None None ''turn'' 5 (createInitialState Thread)) \<noteq> []
   \<and> \<not> isBufferingObservation (pushPendingSegment ''seg_1'' ''t1'' None None ''turn'' 5 (createInitialState Thread))
   \<and> channel_text True
        \<lparr> isGeminiCliAvailable = True, callGeminiCli = (\<lambda>p. Returned ''no sections here''),
          resolveCompressionModel = False, complete = (\<lambda>p. Threw) \<rparr>
        (buildObserverPrompt DEFAULT_OM_CONFIG
           (observations (pushPendingSegment ''seg_1'' ''t1'' None None ''turn'' 5 (createInitialState Thread)))
           (buildTranscriptFromSegments
              (pendingSegments (pushPendingSegment ''seg_1'' ''t1'' None None ''turn'' 5 (createInitialState Thread)))))
       = Returned (Some ''no sections here'')
   \<and> sec_observations (parseOmSections ''no sections here'') = []
   \<and> observeNow DEFAULT_OM_CONFIG Thread
        \<lparr> isGeminiCliAvailable = True, callGeminiCli = (\<lambda>p. Returned ''no sections here''),
          resolveCompressionModel = False, complete = (\<lambda>p. Threw) \<rparr> ''t2'' True
        (pushPendingSegment ''seg_1'' ''t1'' None None ''turn'' 5 (createInitialState Thread))
       = (pushPendingSegment ''seg_1'' ''t1'' None None ''turn'' 5 (createInitialState Thread), Completed False)"
proof -
  let ?s = "pushPendingSegment ''seg_1'' ''t1'' None None ''turn'' 5 (createInitialState Thread)"
  let ?b = "\<lparr> isGeminiCliAvailable = True, callGeminiCli = (\<lambda>p. Returned ''no sections here''),
          resolveCompressionModel = False, complete = (\<lambda>p. Threw) \<rparr>"
  have h1: "pendingSegments ?s \<noteq> []" by simp
  have h2: "\<not> isBufferingObservation ?s" by (simp add: createInitialState_def)
  have t: "trim ''no sections here'' = ''no sections here''" by code_simp
  have h3: "channel_text True ?b
        (buildObserverPrompt DEFAULT_OM_CONFIG (observations ?s)
           (buildTranscriptFromSegments (pendingSegments ?s)))
       = Returned (Some ''no sections here'')"
    by (simp add: channel_text_def Let_def t)
  have h4: "sec_observations (parseOmSections ''no sections here'') = []" by code_simp
  from observeNow_empty_parse_fails[OF h1 h2 h3 h4, of Thread "''t2''" True]
  have "observeNow DEFAULT_OM_CONFIG Thread ?b ''t2'' True ?s = (?s, Completed False)" by (rule conjunct1)
  with h1 h2 h3 h4 show ?thesis by (intro conjI)
qed

subsection \<open>Claim C6: the auto-trigger after an append\<close>

text \<open>
  C6. When the \<open>turn_end\<close> handler has appended the turn, the threshold is positive, no
  Observer run is in flight and the pending token total, the appended turn included, is
  at least the threshold, the handler starts an Observer run on all pending segments. A
  threshold of 0 never starts one from this handler. The other place that appends, the
  handler before compaction, starts an Observer run after its append whatever the
  threshold.
\<close>

theorem turn_end_auto_observes:
  assumes "0 < autoObservePendingTokenThreshold cfg"
      and "\<not> isBufferingObservation s"
      and "s1 = pushPendingSegment rid now None None
                 (''[Turn '' @ turnIndex @ '']'' @ [nl] @ serializedTurn) est s"
      and "autoObservePendingTokenThreshold cfg \<le> pendingTokens s1"
  shows "turn_end_start cfg scope rid now turnIndex serializedTurn est s =
           (s1\<lparr>isBufferingObservation := True\<rparr>,
            Some \<lparr>promptObservations = observations s,
                  transcript = buildTranscriptFromSegments (pendingSegments s1),
                  inputTokens = pendingTokens s1\<rparr>)
       \<and> pendingTokens s1 = sum_list (map tokens (pendingSegments s)) + max 1 est
       \<and> (\<forall>cfg0. autoObservePendingTokenThreshold cfg0 = 0 \<longrightarrow>
            turn_end_start cfg0 scope rid now turnIndex serializedTurn est s = (persistState scope s1, None))
       \<and> (\<forall>t. before_compact_start rid now (Some t) s =
            observeNow_start (pushPendingSegment rid now (Some rid) None
               (''[Compaction Event]'' @ [nl] @ t) (roughTextTokenizer t None) s)
          \<and> snd (before_compact_start rid now (Some t) s) \<noteq> None)"
proof -
  have a: "turn_end_start cfg scope rid now turnIndex serializedTurn est s =
           (s1\<lparr>isBufferingObservation := True\<rparr>,
            Some \<lparr>promptObservations = observations s,
                  transcript = buildTranscriptFromSegments (pendingSegments s1),
                  inputTokens = pendingTokens s1\<rparr>)"
    using assms by (simp add: turn_end_start_cases Let_def)
  have b: "pendingTokens s1 = sum_list (map tokens (pendingSegments s)) + max 1 est"
    by (simp add: assms(3))
  have c: "autoObservePendingTokenThreshold cfg0 = 0 \<Longrightarrow>
            turn_end_start cfg0 scope rid now turnIndex serializedTurn est s = (persistState scope s1, None)"
    for cfg0
    by (simp add: turn_end_start_cases Let_def assms(3))
  have d: "snd (before_compact_start rid now (Some t) s) \<noteq> None" for t
    using assms(2) by (simp add: before_compact_start_def observeNow_start_cases)
  show ?thesis using a b c d by (simp add: before_compact_start_def)
qed

text \<open>
  The scenario of C6 as the witness: pending turns of 4000 and 3000 tokens, a turn of
  2000 tokens is appended, the total of 9000 reaches the default threshold of 8000, and
  an Observer run starts.
\<close>

theorem turn_end_auto_observes_witness:
  "0 < autoObservePendingTokenThreshold DEFAULT_OM_CONFIG
   \<and> \<not> isBufferingObservation
        (pushPendingSegment ''seg_2'' ''t2'' None None ''turn 2'' 3000
          (pushPendingSegment ''seg_1'' ''t1'' None None ''turn 1'' 4000 (createInitialState Thread)))
   \<and> pendingTokens
        (pushPendingSegment ''seg_3'' ''t3'' None None (''[Turn '' @ ''3'' @ '']'' @ [nl] @ ''turn 3'') 2000
          (pushPendingSegment ''seg_2'' ''t2'' None None ''turn 2'' 3000
            (pushPendingSegment ''seg_1'' ''t1'' None None ''turn 1'' 4000 (createInitialState Thread)))) = 9000
   \<and> autoObservePendingTokenThreshold DEFAULT_OM_CONFIG = 8000
   \<and> snd (turn_end_start DEFAULT_OM_CONFIG Thread ''seg_3'' ''t3'' ''3'' ''turn 3'' 2000
        (pushPendingSegment ''seg_2'' ''t2'' None None ''turn 2'' 3000
          (pushPendingSegment ''seg_1'' ''t1'' None None ''turn 1'' 4000 (createInitialState Thread))))
       \<noteq> None"
proof -
  let ?s = "pushPendingSegment ''seg_2'' ''t2'' None None ''turn 2'' 3000
          (pushPendingSegment ''seg_1'' ''t1'' None None ''turn 1'' 4000 (createInitialState Thread))"
  let ?s1 = "pushPendingSegment ''seg_3'' ''t3'' None None (''[Turn '' @ ''3'' @ '']'' @ [nl] @ ''turn 3'') 2000 ?s"
  have h1: "0 < autoObservePendingTokenThreshold DEFAULT_OM_CONFIG" by (simp add: DEFAULT_OM_CONFIG_def)
  have h2: "\<not> isBufferingObservation ?s" by (simp add: createInitialState_def)
  have h3: "?s1 = pushPendingSegment ''seg_3'' ''t3'' None None (''[Turn '' @ ''3'' @ '']'' @ [nl] @ ''turn 3'') 2000 ?s"
    by (rule refl)
  have e: "pendingTokens ?s1 = 9000" by (simp add: createInitialState_def)
  have d: "autoObservePendingTokenThreshold DEFAULT_OM_CONFIG = 8000" by (simp add: DEFAULT_OM_CONFIG_def)
  have h4: "autoObservePendingTokenThreshold DEFAULT_OM_CONFIG \<le> pendingTokens ?s1"
    unfolding e d by simp
  from turn_end_auto_observes[OF h1 h2 h3 h4, of Thread]
  have "snd (turn_end_start DEFAULT_OM_CONFIG Thread ''seg_3'' ''t3'' ''3'' ''turn 3'' 2000 ?s) \<noteq> None"
    by simp
  with h1 h2 e d show ?thesis by (intro conjI)
qed

subsection \<open>Claim C7: the token budgets of the selection\<close>

lemma ranked_le_trans: "ranked_le a b \<Longrightarrow> ranked_le b c \<Longrightarrow> ranked_le a c"
  by (auto simp: ranked_le_def ranked_before_def split: prod.splits)

lemma ranked_le_total: "ranked_le a b \<or> ranked_le b a"
  by (auto simp: ranked_le_def ranked_before_def split: prod.splits)

lemma set_insert_ranked: "set (insert_ranked x xs) = insert x (set xs)"
  by (induction xs) auto

lemma sorted_insert_ranked:
  "sorted_wrt ranked_le xs \<Longrightarrow> sorted_wrt ranked_le (insert_ranked x xs)"
proof (induction xs)
  case Nil
  then show ?case by simp
next
  case (Cons y ys)
  show ?case
  proof (cases "ranked_before y x")
    case True
    then have "ranked_le y x" using ranked_le_total[of x y] by (auto simp: ranked_le_def)
    then show ?thesis using Cons True by (auto simp: set_insert_ranked)
  next
    case False
    then have xy: "ranked_le x y" by (simp add: ranked_le_def)
    have "\<forall>z\<in>set ys. ranked_le x z" using Cons.prems xy ranked_le_trans by auto
    then show ?thesis using Cons.prems False xy by simp
  qed
qed

lemma sorted_sort_ranked: "sorted_wrt ranked_le (sort_ranked xs)"
  unfolding sort_ranked_def by (induction xs) (simp_all add: sorted_insert_ranked)

lemma set_sort_ranked: "set (sort_ranked xs) = set xs"
  unfolding sort_ranked_def by (induction xs) (simp_all add: set_insert_ranked)

lemma sorted_rankedObservations: "sorted_wrt ranked_le (rankedObservations s msgs)"
  by (simp add: rankedObservations_def Let_def sorted_sort_ranked)

lemma collect_relevant_first:
  "collect_relevant mx seen n items =
     (case filter (\<lambda>r. fst r \<notin> set seen) items of
        [] \<Rightarrow> []
      | r # rest \<Rightarrow> fst r # tl (collect_relevant mx seen n items))"
  by (induction mx seen n items rule: collect_relevant.induct) (auto split: list.splits)

lemma relevantRaw_first:
  assumes "relevantRaw cfg s msgs \<noteq> []"
  shows "hd (relevantRaw cfg s msgs) =
       fst (hd (filter (\<lambda>r. fst r \<notin> set (coreObservations cfg s)) (rankedObservations s msgs)))"
proof (cases "filter (\<lambda>r. fst r \<notin> set (coreObservations cfg s)) (rankedObservations s msgs)")
  case Nil
  then have "relevantRaw cfg s msgs = []"
    unfolding relevantRaw_def
    by (subst collect_relevant_first) simp
  with assms show ?thesis by simp
next
  case (Cons a rest)
  then have "relevantRaw cfg s msgs = fst a # tl (relevantRaw cfg s msgs)"
    unfolding relevantRaw_def
    by (subst collect_relevant_first) simp
  then have "hd (relevantRaw cfg s msgs) = fst a" by (metis list.sel(1))
  then show ?thesis using Cons by simp
qed

lemma trim_loop_prefix: "prefix (trim_loop mx n used ls) ls"
  by (induction ls arbitrary: n used) (simp_all add: Let_def)

lemma trim_loop_within:
  "0 < n \<Longrightarrow> trim_loop mx n used ls = []
     \<or> used + sum_list (map (\<lambda>l. roughTextTokenizer l None) (trim_loop mx n used ls)) \<le> mx"
proof (induction ls arbitrary: n used)
  case Nil
  then show ?case by simp
next
  case (Cons l ls)
  show ?case
  proof (cases "used + roughTextTokenizer l None > mx")
    case True
    then show ?thesis using Cons.prems by (simp add: Let_def)
  next
    case False
    from Cons.IH[of "Suc n" "used + roughTextTokenizer l None"]
    have "trim_loop mx (Suc n) (used + roughTextTokenizer l None) ls = []
      \<or> used + roughTextTokenizer l None
          + sum_list (map (\<lambda>l. roughTextTokenizer l None)
               (trim_loop mx (Suc n) (used + roughTextTokenizer l None) ls)) \<le> mx"
      by simp
    then show ?thesis using False by (auto simp: Let_def add.assoc)
  qed
qed

lemma trimLines_Nil [simp]: "trimLinesToTokenBudget [] mx = []"
  by (simp add: trimLinesToTokenBudget_def)

lemma trimLines_first:
  "lines \<noteq> [] \<Longrightarrow> trimLinesToTokenBudget lines mx \<noteq> [] \<and> hd (trimLinesToTokenBudget lines mx) = hd lines"
  by (cases lines) (simp_all add: trimLinesToTokenBudget_def Let_def)

lemma trimLines_budget:
  "lines \<noteq> [] \<Longrightarrow>
     sum_list (map (\<lambda>l. roughTextTokenizer l None) (trimLinesToTokenBudget lines mx)) \<le> mx
     \<or> trimLinesToTokenBudget lines mx = [hd lines]"
proof (cases lines)
  case Nil
  assume "lines \<noteq> []" with Nil show ?thesis by simp
next
  case (Cons l ls)
  from trim_loop_within[of "Suc 0" mx "roughTextTokenizer l None" ls]
  show ?thesis using Cons by (auto simp: trimLinesToTokenBudget_def Let_def)
qed

lemma trimLines_prefix: "prefix (trimLinesToTokenBudget lines mx) lines"
  by (simp add: trimLinesToTokenBudget_def trim_loop_prefix)

text \<open>
  C7. For every state and every window of recent messages (budgets not negative, as in
  every loaded configuration): the estimated tokens of the core lines sum to at most
  \<open>coreMemoryMaxTokens\<close>, unless the core is the most recent line alone; the estimated
  tokens of the relevant lines sum to at most \<open>relevantObservationMaxTokens\<close>, unless
  the relevant set is the top-ranked line outside the core alone. The core is a tail of
  the observation lines and ends with the most recent one; the relevant lines are an
  initial part of the lines collected from the ranking, which is sorted and whose first
  line outside the core heads the collection; and the trimming always keeps the first
  line it is given, whatever the budget.
\<close>

theorem selection_respects_budgets:
  assumes "0 \<le> coreMemoryMaxTokens cfg" and "0 \<le> relevantObservationMaxTokens cfg"
  shows "(case buildCoreAndRelevantObservations cfg s recentMessages of
            (core, relevant) \<Rightarrow>
              (sum_list (map (\<lambda>l. roughTextTokenizer l None) core) \<le> coreMemoryMaxTokens cfg
                 \<or> core = [last (obs_lines (observations s))])
              \<and> (sum_list (map (\<lambda>l. roughTextTokenizer l None) relevant) \<le> relevantObservationMaxTokens cfg
                 \<or> relevant = [hd (relevantRaw cfg s recentMessages)])
              \<and> suffix core (obs_lines (observations s))
              \<and> prefix relevant (relevantRaw cfg s recentMessages)
              \<and> (obs_lines (observations s) \<noteq> []
                   \<longrightarrow> core \<noteq> [] \<and> last core = last (obs_lines (observations s)))
              \<and> (obs_lines (observations s) \<noteq> [] \<and> relevantRaw cfg s recentMessages \<noteq> []
                   \<longrightarrow> relevant \<noteq> [] \<and> hd relevant = hd (relevantRaw cfg s recentMessages)))
       \<and> sorted_wrt ranked_le (rankedObservations s recentMessages)
       \<and> (relevantRaw cfg s recentMessages \<noteq> [] \<longrightarrow>
            hd (relevantRaw cfg s recentMessages) =
              fst (hd (filter (\<lambda>r. fst r \<notin> set (coreObservations cfg s))
                         (rankedObservations s recentMessages))))
       \<and> (\<forall>lines mx. lines \<noteq> [] \<longrightarrow>
            trimLinesToTokenBudget lines mx \<noteq> [] \<and> hd (trimLinesToTokenBudget lines mx) = hd lines)"
proof (cases "obs_lines (observations s) = []")
  case True
  have g: "\<forall>lines mx. lines \<noteq> [] \<longrightarrow>
            trimLinesToTokenBudget lines mx \<noteq> [] \<and> hd (trimLinesToTokenBudget lines mx) = hd lines"
    using trimLines_first by blast
  have b: "buildCoreAndRelevantObservations cfg s recentMessages = ([], [])"
    using True by (simp add: buildCoreAndRelevantObservations_def)
  show ?thesis
    unfolding b prod.case
    using assms True g sorted_rankedObservations[of s recentMessages]
      relevantRaw_first[of cfg s recentMessages]
    by simp
next
  case False
  let ?all = "obs_lines (observations s)"
  let ?tc = "trimLinesToTokenBudget (rev ?all) (coreMemoryMaxTokens cfg)"
  let ?raw = "relevantRaw cfg s recentMessages"
  let ?rel = "trimLinesToTokenBudget ?raw (relevantObservationMaxTokens cfg)"
  have r: "rev ?all \<noteq> []" using False by simp
  have c1: "sum_list (map (\<lambda>l. roughTextTokenizer l None) (rev ?tc)) \<le> coreMemoryMaxTokens cfg
             \<or> rev ?tc = [last ?all]"
    using trimLines_budget[OF r, of "coreMemoryMaxTokens cfg"] False
    by (auto simp: rev_map[symmetric] hd_rev)
  have c2: "suffix (rev ?tc) ?all"
    using trimLines_prefix[of "rev ?all" "coreMemoryMaxTokens cfg"]
    by (metis rev_rev_ident suffix_to_prefix)
  have c3: "rev ?tc \<noteq> [] \<and> last (rev ?tc) = last ?all"
    using trimLines_first[OF r, of "coreMemoryMaxTokens cfg"] False
    by (simp add: last_rev hd_rev)
  have r1: "sum_list (map (\<lambda>l. roughTextTokenizer l None) ?rel) \<le> relevantObservationMaxTokens cfg
             \<or> ?rel = [hd ?raw]"
  proof (cases "?raw = []")
    case True then show ?thesis using assms(2) by simp
  next
    case False then show ?thesis by (rule trimLines_budget)
  qed
  have r2: "prefix ?rel ?raw" by (rule trimLines_prefix)
  have r3: "?raw \<noteq> [] \<longrightarrow> ?rel \<noteq> [] \<and> hd ?rel = hd ?raw"
    using trimLines_first by blast
  have b: "buildCoreAndRelevantObservations cfg s recentMessages = (rev ?tc, ?rel)"
    using False by (simp add: buildCoreAndRelevantObservations_def coreObservations_def)
  have g: "\<forall>lines mx. lines \<noteq> [] \<longrightarrow>
            trimLinesToTokenBudget lines mx \<noteq> [] \<and> hd (trimLinesToTokenBudget lines mx) = hd lines"
    using trimLines_first by blast
  show ?thesis
    unfolding b prod.case
    using c1 c2 c3 r1 r2 r3 g sorted_rankedObservations[of s recentMessages]
      relevantRaw_first[of cfg s recentMessages]
    by blast
qed

text \<open>
  The witness, with both budgets at 1 token: the most recent line, of 6 tokens, is the
  core alone, and the top-ranked other line is the relevant set alone.
\<close>

theorem selection_respects_budgets_witness:
  "(0::rat) \<le> coreMemoryMaxTokens (DEFAULT_OM_CONFIG\<lparr>coreMemoryMaxTokens := 1, relevantObservationMaxTokens := 1\<rparr>)
   \<and> (0::rat) \<le> relevantObservationMaxTokens
        (DEFAULT_OM_CONFIG\<lparr>coreMemoryMaxTokens := 1, relevantObservationMaxTokens := 1\<rparr>)
   \<and> buildCoreAndRelevantObservations
        (DEFAULT_OM_CONFIG\<lparr>coreMemoryMaxTokens := 1, relevantObservationMaxTokens := 1\<rparr>)
        ((createInitialState Thread)
           \<lparr>observations := ''alpha auth one'' @ [nl] @ ''beta two'' @ [nl] @ ''gamma auth three four''\<rparr>)
        [StringContent ''what about auth?'']
       = ([''gamma auth three four''], [''alpha auth one''])
   \<and> roughTextTokenizer ''gamma auth three four'' None = 6
   \<and> prefix [''alpha auth one'']
        (relevantRaw (DEFAULT_OM_CONFIG\<lparr>coreMemoryMaxTokens := 1, relevantObservationMaxTokens := 1\<rparr>)
           ((createInitialState Thread)
              \<lparr>observations := ''alpha auth one'' @ [nl] @ ''beta two'' @ [nl] @ ''gamma auth three four''\<rparr>)
           [StringContent ''what about auth?''])"
proof -
  let ?cfg = "DEFAULT_OM_CONFIG\<lparr>coreMemoryMaxTokens := 1, relevantObservationMaxTokens := 1\<rparr>"
  let ?s = "(createInitialState Thread)
           \<lparr>observations := ''alpha auth one'' @ [nl] @ ''beta two'' @ [nl] @ ''gamma auth three four''\<rparr>"
  let ?m = "[StringContent ''what about auth?'']"
  have h1: "(0::rat) \<le> coreMemoryMaxTokens ?cfg" by simp
  have h2: "(0::rat) \<le> relevantObservationMaxTokens ?cfg" by simp
  have e: "buildCoreAndRelevantObservations ?cfg ?s ?m = ([''gamma auth three four''], [''alpha auth one''])
           \<and> roughTextTokenizer ''gamma auth three four'' None = 6"
    by code_simp
  from selection_respects_budgets[OF h1 h2, of ?s ?m]
  have "prefix [''alpha auth one''] (relevantRaw ?cfg ?s ?m)"
    unfolding conjunct1[OF e] prod.case by blast
  with h1 h2 e show ?thesis by (intro conjI) simp_all
qed

subsection \<open>Claim C8: the temporal annotation of two concrete cases\<close>

lemma days_between:
  "d + k * 86400000 \<le> cur \<Longrightarrow> cur < d + (k + 1) * 86400000 \<Longrightarrow> (cur - d) div 86400000 = (k::int)"
proof -
  assume a: "d + k * 86400000 \<le> cur" "cur < d + (k + 1) * 86400000"
  define r where "r = cur - d - k * 86400000"
  have r: "0 \<le> r" "r < 86400000" using a by (simp_all add: r_def algebra_simps)
  have "cur - d = r + k * 86400000" by (simp add: r_def)
  then have "(cur - d) div 86400000 = (r + k * 86400000) div 86400000" by simp
  also have "\<dots> = r div 86400000 + k" by simp
  also have "r div 86400000 = 0" using r by (simp add: div_pos_pos_trivial)
  finally show ?thesis by simp
qed

lemma feb13: "host_parse_date ''Feb'' 13 2026 = Some 1770940800000"
  by code_simp

lemma inline_1: "expandInlineEstimatedDates ''Date: Feb 12, 2026'' cur = ''Date: Feb 12, 2026''"
  by code_simp

lemma headers_1: "scan_headers 0 0 True ''Date: Feb 12, 2026'' =
   [\<lparr>hdr_index = 0, hdr_date = 1770854400000, hdr_match = ''Date: Feb 12, 2026'',
     hdr_prefix = ''Date: '', hdr_dateStr = ''Feb 12, 2026''\<rparr>]"
  by code_simp

lemma annotate_1: "addRelativeTimeToObservations ''Date: Feb 12, 2026'' cur =
   ''Date: Feb 12, 2026 ('' @ formatRelativeTime 1770854400000 cur @ '')''"
  unfolding addRelativeTimeToObservations_def inline_1 Let_def headers_1
  by (simp add: header_replacement_def)

lemma inline_2:
  "expandInlineEstimatedDates
     (''Date: Feb 2, 2026'' @ [nl] @ ''* a'' @ [nl] @ ''Date: Feb 12, 2026'' @ [nl] @ ''* b'') cur
   = ''Date: Feb 2, 2026'' @ [nl] @ ''* a'' @ [nl] @ ''Date: Feb 12, 2026'' @ [nl] @ ''* b''"
  by code_simp

lemma headers_2:
  "scan_headers 0 0 True
     (''Date: Feb 2, 2026'' @ [nl] @ ''* a'' @ [nl] @ ''Date: Feb 12, 2026'' @ [nl] @ ''* b'') =
   [\<lparr>hdr_index = 0, hdr_date = 1769990400000, hdr_match = ''Date: Feb 2, 2026'',
     hdr_prefix = ''Date: '', hdr_dateStr = ''Feb 2, 2026''\<rparr>,
    \<lparr>hdr_index = 22, hdr_date = 1770854400000, hdr_match = ''Date: Feb 12, 2026'',
     hdr_prefix = ''Date: '', hdr_dateStr = ''Feb 12, 2026''\<rparr>]"
  by code_simp

lemma gap_ten_days:
  "d2 - d1 = 10 * 86400000 \<Longrightarrow> formatGapBetweenDates d1 d2 = Some ''[1 week later]''"
  by (simp add: formatGapBetweenDates_def Let_def)

lemma annotate_2:
  "addRelativeTimeToObservations
     (''Date: Feb 2, 2026'' @ [nl] @ ''* a'' @ [nl] @ ''Date: Feb 12, 2026'' @ [nl] @ ''* b'') cur =
   ''Date: Feb 2, 2026 ('' @ formatRelativeTime 1769990400000 cur @ '')'' @ [nl] @ ''* a'' @ [nl] @ [nl]
    @ ''[1 week later]'' @ [nl] @ ''Date: Feb 12, 2026 ('' @ formatRelativeTime 1770854400000 cur @ '')''
    @ [nl] @ ''* b''"
  unfolding addRelativeTimeToObservations_def inline_2 Let_def headers_2
  by (simp add: header_replacement_def gap_ten_days numeral_2_eq_2 nl_def)

text \<open>
  C8. Let the current date be any moment of 13 February 2026. The header line
  \<open>Date: Feb 12, 2026\<close> is rendered with \<open>(yesterday)\<close> appended. Two date headers ten
  days apart, 2 and 12 February 2026, are rendered with the line \<open>[1 week later]\<close>
  inserted between them, after an empty line and before the second header. Every two
  dates ten days apart give the gap marker \<open>[1 week later]\<close>.
\<close>

theorem temporal_annotation_cases:
  assumes "host_parse_date ''Feb'' 13 2026 = Some today"
      and "today \<le> cur" and "cur < today + 86400000"
  shows "addRelativeTimeToObservations ''Date: Feb 12, 2026'' cur = ''Date: Feb 12, 2026 (yesterday)''
       \<and> addRelativeTimeToObservations
            (''Date: Feb 2, 2026'' @ [nl] @ ''* a'' @ [nl] @ ''Date: Feb 12, 2026'' @ [nl] @ ''* b'') cur
           = ''Date: Feb 2, 2026 (1 week ago)'' @ [nl] @ ''* a'' @ [nl] @ [nl] @ ''[1 week later]'' @ [nl]
               @ ''Date: Feb 12, 2026 (yesterday)'' @ [nl] @ ''* b''
       \<and> (\<forall>d. host_parse_date ''Feb'' 12 2026 = Some d \<longrightarrow> formatRelativeTime d cur = ''yesterday'')
       \<and> (\<forall>d1 d2. d2 - d1 = 10 * 86400000 \<longrightarrow> formatGapBetweenDates d1 d2 = Some ''[1 week later]'')"
proof -
  have t: "today = 1770940800000" using assms(1) by (simp add: feb13)
  have "(cur - 1770854400000) div 86400000 = 1"
    using days_between[of 1770854400000 1 cur] assms(2,3) t by simp
  then have y: "formatRelativeTime 1770854400000 cur = ''yesterday''"
    by (simp add: formatRelativeTime_def Let_def)
  have "(cur - 1769990400000) div 86400000 = 11"
    using days_between[of 1769990400000 11 cur] assms(2,3) t by simp
  then have w: "formatRelativeTime 1769990400000 cur = ''1 week ago''"
    by (simp add: formatRelativeTime_def Let_def)
  have f12: "host_parse_date ''Feb'' 12 2026 = Some 1770854400000" by code_simp
  have a: "addRelativeTimeToObservations ''Date: Feb 12, 2026'' cur = ''Date: Feb 12, 2026 (yesterday)''"
    by (simp add: annotate_1 y)
  have b: "addRelativeTimeToObservations
            (''Date: Feb 2, 2026'' @ [nl] @ ''* a'' @ [nl] @ ''Date: Feb 12, 2026'' @ [nl] @ ''* b'') cur
           = ''Date: Feb 2, 2026 (1 week ago)'' @ [nl] @ ''* a'' @ [nl] @ [nl] @ ''[1 week later]'' @ [nl]
               @ ''Date: Feb 12, 2026 (yesterday)'' @ [nl] @ ''* b''"
    unfolding annotate_2 y w by simp
  have c: "\<forall>d. host_parse_date ''Feb'' 12 2026 = Some d \<longrightarrow> formatRelativeTime d cur = ''yesterday''"
    using y by (simp add: f12)
  have d: "\<forall>d1 d2. d2 - d1 = 10 * 86400000 \<longrightarrow> formatGapBetweenDates d1 d2 = Some ''[1 week later]''"
    using gap_ten_days by blast
  show ?thesis using a b c d by (intro conjI)
qed

text \<open>
  The witness: the current moment is 13 February 2026, 13:53:20.
\<close>

theorem temporal_annotation_cases_witness:
  "host_parse_date ''Feb'' 13 2026 = Some 1770940800000
   \<and> (1770940800000::int) \<le> 1770990800000 \<and> (1770990800000::int) < 1770940800000 + 86400000
   \<and> addRelativeTimeToObservations ''Date: Feb 12, 2026'' 1770990800000 = ''Date: Feb 12, 2026 (yesterday)''
   \<and> addRelativeTimeToObservations
        (''Date: Feb 2, 2026'' @ [nl] @ ''* a'' @ [nl] @ ''Date: Feb 12, 2026'' @ [nl] @ ''* b'') 1770990800000
       = ''Date: Feb 2, 2026 (1 week ago)'' @ [nl] @ ''* a'' @ [nl] @ [nl] @ ''[1 week later]'' @ [nl]
           @ ''Date: Feb 12, 2026 (yesterday)'' @ [nl] @ ''* b''"
proof -
  have h1: "host_parse_date ''Feb'' 13 2026 = Some 1770940800000" by (rule feb13)
  have h2: "(1770940800000::int) \<le> 1770990800000" by simp
  have h3: "(1770990800000::int) < 1770940800000 + 86400000" by simp
  from temporal_annotation_cases[OF h1 h2 h3]
  have "addRelativeTimeToObservations ''Date: Feb 12, 2026'' 1770990800000 = ''Date: Feb 12, 2026 (yesterday)''"
       "addRelativeTimeToObservations
        (''Date: Feb 2, 2026'' @ [nl] @ ''* a'' @ [nl] @ ''Date: Feb 12, 2026'' @ [nl] @ ''* b'') 1770990800000
       = ''Date: Feb 2, 2026 (1 week ago)'' @ [nl] @ ''* a'' @ [nl] @ [nl] @ ''[1 week later]'' @ [nl]
           @ ''Date: Feb 12, 2026 (yesterday)'' @ [nl] @ ''* b''"
    by blast+
  with h1 h2 h3 show ?thesis by (intro conjI)
qed

end
